theory Spec2Isabelle
  imports Complex_Main "HOL-Library.Word" "HOL-Library.Log_Nat"
begin

section \<open>Token-bucket limiter (middleware.py, class TokenBucketRateLimit)\<close>

subsection \<open>Python numbers\<close>

text \<open>
  A Python \<open>float\<close> is an IEEE 754 binary64 number. It is modelled by the real number it
  denotes, and every float operation of the code rounds its exact result with
  \<open>round_double\<close>: to the nearest number with a 53-bit significand, a tie to the one
  with the even significand. The exponent range is not bounded in the model, so
  overflow to infinity, subnormal numbers and NaN do not occur in it.

  \<open>round_half_even\<close> rounds a real to the nearest integer, a tie to the even one.
  \<open>exponent x\<close> is the integer \<open>e\<close> with \<open>2 ^ e \<le> x < 2 ^ (e + 1)\<close> for a positive
  \<open>x\<close>, computed from the bit length of the integer part, or of the reciprocal below
  one; \<open>pow2 e\<close> is \<open>2 ^ e\<close> for an integer \<open>e\<close>; \<open>ulp x\<close> is the distance between
  neighbouring floats at the magnitude of \<open>x\<close>.
\<close>

definition round_half_even :: "real \<Rightarrow> int" where
  "round_half_even a =
     (let f = \<lfloor>a\<rfloor>
      in if a - of_int f < 1 / 2 then f
         else if 1 / 2 < a - of_int f then f + 1
         else if even f then f else f + 1)"

definition exponent :: "real \<Rightarrow> int" where
  "exponent x = (if 1 \<le> x then bitlen \<lfloor>x\<rfloor> - 1 else - int (ceillog2 (nat \<lceil>1 / x\<rceil>)))"

definition pow2 :: "int \<Rightarrow> real" where
  "pow2 e = (if 0 \<le> e then 2 ^ nat e else 1 / 2 ^ nat (- e))"

definition ulp :: "real \<Rightarrow> real" where
  "ulp x = pow2 (exponent \<bar>x\<bar> - 52)"

definition round_double :: "real \<Rightarrow> real" where
  "round_double x =
     (if x = 0 then 0
      else sgn x * (of_int (round_half_even (\<bar>x\<bar> / ulp x)) * ulp x))"

text \<open>
  The token count is a Python number: the \<open>int\<close> that \<open>__init__\<close> stores and that
  \<open>min\<close> returns when the capacity wins, or a \<open>float\<close>. \<open>value_of\<close> is the number
  denoted (comparisons between \<open>int\<close> and \<open>float\<close> are exact in Python), \<open>float_of\<close>
  the conversion that arithmetic with a float operand applies to an \<open>int\<close>.
\<close>

datatype number = PyInt int | PyFloat real

fun value_of :: "number \<Rightarrow> real" where
  "value_of (PyInt i) = of_int i"
| "value_of (PyFloat x) = x"

fun float_of :: "number \<Rightarrow> real" where
  "float_of (PyInt i) = round_double (of_int i)"
| "float_of (PyFloat x) = x"

text \<open>
  \<open>a + y\<close> for a float \<open>y\<close>; \<open>min(c, x)\<close> for an \<open>int\<close> \<open>c\<close> and a float \<open>x\<close>, which
  returns its first argument unless the second is smaller; \<open>a - n\<close> for an \<open>int\<close> \<open>n\<close>,
  exact between two \<open>int\<close>s.
\<close>

definition add_float :: "number \<Rightarrow> real \<Rightarrow> real" where
  "add_float a y = round_double (float_of a + y)"

definition min_int_float :: "int \<Rightarrow> real \<Rightarrow> number" where
  "min_int_float c x = (if x < of_int c then PyFloat x else PyInt c)"

fun sub_int :: "number \<Rightarrow> int \<Rightarrow> number" where
  "sub_int (PyInt i) n = PyInt (i - n)"
| "sub_int (PyFloat x) n = PyFloat (round_double (x - round_double (of_int n)))"

subsection \<open>The limiter\<close>

text \<open>
  The limiter object has four attributes. \<open>capacity\<close> is a Python \<open>int\<close>; the refill
  rate and the time stamp are floats; the token count starts as the \<open>int\<close> capacity and
  becomes a float when a refill stays below the capacity. The clock reading
  \<open>time.time()\<close> that \<open>consume\<close> takes first is a parameter \<open>now\<close> of the model.
\<close>

record TokenBucketRateLimit =
  capacity :: int
  refill_rate :: real
  tokens :: number
  last_refill :: real


text \<open>
  \<open>consume(tokens=n)\<close>: refill, stamp, then try to subtract. The result is the returned
  boolean and the mutated object.
\<close>

definition consume :: "real \<Rightarrow> int \<Rightarrow> TokenBucketRateLimit \<Rightarrow> bool \<times> TokenBucketRateLimit" where
  "consume now n s =
     (let time_passed = round_double (now - last_refill s);
          s1 = s\<lparr>tokens := min_int_float (capacity s)
                               (add_float (tokens s) (round_double (time_passed * refill_rate s))),
                 last_refill := now\<rparr>
      in if of_int n \<le> value_of (tokens s1)
         then (True, s1\<lparr>tokens := sub_int (tokens s1) n\<rparr>)
         else (False, s1))"


section \<open>Python strings and bytes\<close>

text \<open>
  A Python \<open>str\<close> is a sequence of Unicode code points and is modelled as a list of
  natural numbers; \<open>len\<close> is \<open>length\<close>. A \<open>bytes\<close> object is a list of 8-bit words.
  \<open>py\<close> and \<open>bytes_lit\<close> turn an ASCII literal of the source into the model's value.
\<close>

type_synonym codepoint = nat
type_synonym pystr = "codepoint list"
type_synonym byte = "8 word"
type_synonym bytes = "byte list"

definition py :: "string \<Rightarrow> pystr" where
  "py s = map of_char s"

definition bytes_lit :: "string \<Rightarrow> bytes" where
  "bytes_lit s = map of_char s"

text \<open>\<open>str(n)\<close> for a non-negative and for any Python integer: decimal digits.\<close>

fun str_of_nat :: "nat \<Rightarrow> pystr" where
  "str_of_nat n = (if n < 10 then [48 + n] else str_of_nat (n div 10) @ [48 + n mod 10])"

declare str_of_nat.simps [simp del]

definition str_of_int :: "int \<Rightarrow> pystr" where
  "str_of_int i = (if i < 0 then 45 # str_of_nat (nat (- i)) else str_of_nat (nat i))"

text \<open>\<open>s.startswith(p)\<close> and \<open>s.endswith(p)\<close>, on \<open>str\<close> and on \<open>bytes\<close>.\<close>

fun startswith :: "'a list \<Rightarrow> 'a list \<Rightarrow> bool" where
  "startswith s [] = True"
| "startswith [] (p # ps) = False"
| "startswith (c # s) (p # ps) = (c = p \<and> startswith s ps)"

definition endswith :: "'a list \<Rightarrow> 'a list \<Rightarrow> bool" where
  "endswith s p = startswith (rev s) (rev p)"

text \<open>
  The slice \<open>s[i:j]\<close> for \<open>0 \<le> i \<le> j\<close>, and \<open>s[:k]\<close> for any integer \<open>k\<close>
  (a negative \<open>k\<close> counts from the end and stops at the start of the string).
\<close>

definition slice :: "nat \<Rightarrow> nat \<Rightarrow> 'a list \<Rightarrow> 'a list" where
  "slice i j s = take (j - i) (drop i s)"

definition slice_to :: "int \<Rightarrow> 'a list \<Rightarrow> 'a list" where
  "slice_to k s = (if 0 \<le> k then take (nat k) s else take (nat (int (length s) + k)) s)"

text \<open>\<open>s.rfind(c)\<close> for a one-character \<open>c\<close>: the last index of \<open>c\<close>, or \<open>-1\<close>.\<close>

definition rfind :: "pystr \<Rightarrow> codepoint \<Rightarrow> int" where
  "rfind s c = (if c \<in> set s
                then int (length s) - 1 - int (length (takeWhile (\<lambda>x. x \<noteq> c) (rev s)))
                else - 1)"

text \<open>
  \<open>str.isspace\<close> on one code point (the white-space table of CPython), and
  \<open>s.strip()\<close>, which removes leading and trailing white space.
\<close>

definition isspace :: "codepoint \<Rightarrow> bool" where
  "isspace c \<longleftrightarrow> (0x09 \<le> c \<and> c \<le> 0x0D) \<or> (0x1C \<le> c \<and> c \<le> 0x20) \<or> c = 0x85 \<or> c = 0xA0
     \<or> c = 0x1680 \<or> (0x2000 \<le> c \<and> c \<le> 0x200A) \<or> c = 0x2028 \<or> c = 0x2029
     \<or> c = 0x202F \<or> c = 0x205F \<or> c = 0x3000"

definition strip :: "pystr \<Rightarrow> pystr" where
  "strip s = rev (dropWhile isspace (rev (dropWhile isspace s)))"

text \<open>
  Lower-casing of the ASCII letters, which is all that \<open>s.lower().endswith(e)\<close> depends
  on for an ASCII suffix \<open>e\<close>: no other code point lower-cases to a string ending in
  an ASCII letter or dot.
\<close>

definition ascii_lower :: "codepoint \<Rightarrow> codepoint" where
  "ascii_lower c = (if 0x41 \<le> c \<and> c \<le> 0x5A then c + 32 else c)"

text \<open>
  \<open>re.search(pattern, s, re.IGNORECASE)\<close> for the literal lower-case ASCII patterns of
  the source: a pattern character matches a code point whose simple lower-case mapping
  is that character, or which is case-equivalent to it (dotless and dotted capital i for
  \<open>i\<close>, long s for \<open>s\<close>).
\<close>

definition re_fold :: "codepoint \<Rightarrow> codepoint" where
  "re_fold c = (if 0x41 \<le> c \<and> c \<le> 0x5A then c + 32
                else if c = 0x130 \<or> c = 0x131 then 0x69
                else if c = 0x17F then 0x73
                else if c = 0x212A then 0x6B
                else c)"

fun contains_at_some :: "'a list \<Rightarrow> 'a list \<Rightarrow> bool" where
  "contains_at_some [] p = (p = [])"
| "contains_at_some (c # s) p = (startswith (c # s) p \<or> contains_at_some s p)"

definition re_search_ignorecase :: "pystr \<Rightarrow> pystr \<Rightarrow> bool" where
  "re_search_ignorecase pattern s = contains_at_some (map re_fold s) pattern"

section \<open>Errors and log records\<close>

text \<open>
  \<open>InputValidationError(detail, field)\<close> is the subclass of \<open>HTTPException\<close> with status
  422 and a field name; \<open>HTTPException(status_code, detail)\<close> is the plain exception.
  A function that raises returns \<open>Inl\<close> of the exception.
\<close>

datatype exn =
    InputValidationError pystr "pystr option"
  | HTTPException int pystr

fun status_code :: "exn \<Rightarrow> int" where
  "status_code (InputValidationError d f) = 422"
| "status_code (HTTPException c d) = c"

fun detail :: "exn \<Rightarrow> pystr" where
  "detail (InputValidationError d f) = d"
| "detail (HTTPException c d) = d"

fun field :: "exn \<Rightarrow> pystr option" where
  "field (InputValidationError d f) = f"
| "field (HTTPException c d) = None"

text \<open>The \<open>logger.warning\<close> calls of security.py, each with its keyword arguments.\<close>

datatype warning =
    Suspicious_filename pystr pystr
  | Large_image_file_uploaded nat pystr
  | PNG_mask_without_alpha_channel byte pystr
  | PNG_validation_warning exn pystr
  | Mask_file_with_non_PNG_extension pystr pystr
  | Suspicious_pattern_in_prompt pystr pystr

section \<open>Content validator (security.py)\<close>

subsection \<open>sanitize_filename\<close>

text \<open>\<open>os.path.basename\<close> of posixpath: everything after the last slash.\<close>

definition basename :: "pystr \<Rightarrow> pystr" where
  "basename p = drop (nat (rfind p 0x2F + 1)) p"

text \<open>
  \<open>os.path.splitext\<close> of posixpath: split at the last dot, unless that dot is not after
  the last slash or only dots lie between the last slash and it.
\<close>

definition splitext :: "pystr \<Rightarrow> pystr \<times> pystr" where
  "splitext p =
     (let sepIndex = rfind p 0x2F; dotIndex = rfind p 0x2E
      in if sepIndex < dotIndex
            \<and> list_ex (\<lambda>c. c \<noteq> 0x2E) (slice (nat (sepIndex + 1)) (nat dotIndex) p)
         then (take (nat dotIndex) p, drop (nat dotIndex) p)
         else (p, []))"

text \<open>
  The character classes of the two \<open>re.sub\<close> calls: the nine characters
  \<open>< > : " / \ | ? *\<close>, and the code points \<open>00-1f\<close> and \<open>7f-9f\<close>.
\<close>

definition dangerous_char :: "codepoint \<Rightarrow> bool" where
  "dangerous_char c \<longleftrightarrow> c \<in> set [0x3C, 0x3E, 0x3A, 0x22, 0x2F, 0x5C, 0x7C, 0x3F, 0x2A]"

definition control_char :: "codepoint \<Rightarrow> bool" where
  "control_char c \<longleftrightarrow> c \<le> 0x1F \<or> (0x7F \<le> c \<and> c \<le> 0x9F)"

text \<open>
  Lines 92 to 98: base name, replacement by underscore, removal of control characters.
\<close>

definition clean_filename :: "pystr \<Rightarrow> pystr" where
  "clean_filename filename =
     filter (\<lambda>c. \<not> control_char c)
       (map (\<lambda>c. if dangerous_char c then 0x5F else c) (basename filename))"

text \<open>Lines 100 to 103: the length limit.\<close>

definition limit_length :: "pystr \<Rightarrow> pystr" where
  "limit_length filename =
     (if 255 < length filename
      then (case splitext filename of
              (name, ext) \<Rightarrow> slice_to (255 - int (length ext)) name @ ext)
      else filename)"

definition sanitize_filename :: "pystr \<Rightarrow> pystr" where
  "sanitize_filename filename =
     (if filename = [] then py ''unnamed_file''
      else let filename = limit_length (clean_filename filename)
           in if filename = [] \<or> filename \<in> set [py ''.'', py ''..'', []]
              then py ''unnamed_file''
              else filename)"

subsection \<open>validate_file_signature\<close>

text \<open>
  The dictionary of signatures is iterated in insertion order: an association list.
\<close>

fun first_signature :: "bytes \<Rightarrow> (pystr \<times> bytes) list \<Rightarrow> pystr option" where
  "first_signature file_data [] = None"
| "first_signature file_data ((file_type, signature) # rest) =
     (if startswith file_data signature then Some file_type
      else first_signature file_data rest)"

definition validate_file_signature :: "bytes \<Rightarrow> (pystr \<times> bytes) list \<Rightarrow> pystr option" where
  "validate_file_signature file_data expected_signatures =
     (if length file_data < 16 then None
      else first_signature file_data expected_signatures)"

definition PNG_SIGNATURE :: bytes where
  "PNG_SIGNATURE = [0x89, 0x50, 0x4E, 0x47, 0x0D, 0x0A, 0x1A, 0x0A]"

definition JPEG_SIGNATURE :: bytes where
  "JPEG_SIGNATURE = [0xFF, 0xD8, 0xFF]"

definition IMAGE_SIGNATURES :: "(pystr \<times> bytes) list" where
  "IMAGE_SIGNATURES =
     [(py ''png'', PNG_SIGNATURE), (py ''jpeg'', JPEG_SIGNATURE), (py ''jpg'', JPEG_SIGNATURE)]"

subsection \<open>validate_mask_file\<close>

text \<open>
  The body of the \<open>try\<close> block: it raises when bytes 12 to 15 are not \<open>IHDR\<close>, and
  otherwise logs a colour type (byte 25) other than 4 and 6.
\<close>

definition check_ihdr :: "bytes \<Rightarrow> pystr \<Rightarrow> exn + warning list" where
  "check_ihdr file_data filename =
     (if slice 12 16 file_data \<noteq> bytes_lit ''IHDR''
      then Inl (InputValidationError (py ''Invalid PNG structure - IHDR chunk not found'')
                  (Some (py ''mask'')))
      else if 25 < length file_data
      then (let color_type = file_data ! 25
            in if color_type \<notin> set [4, 6]
               then Inr [PNG_mask_without_alpha_channel color_type (sanitize_filename filename)]
               else Inr [])
      else Inr [])"

text \<open>
  The function raises (\<open>Inl\<close>) or returns nothing, having logged the listed warnings
  (\<open>Inr\<close>). The \<open>try\<close> block is followed by \<open>except Exception\<close>, which catches every
  exception of the block, \<open>InputValidationError\<close> included, and logs it.
\<close>

definition validate_mask_file :: "bytes \<Rightarrow> pystr \<Rightarrow> pystr \<Rightarrow> exn + warning list" where
  "validate_mask_file file_data filename content_type =
     (if content_type \<noteq> py ''image/png''
      then Inl (InputValidationError (py ''Mask file must be PNG format with alpha channel'')
                  (Some (py ''mask'')))
      else if \<not> startswith file_data PNG_SIGNATURE
      then Inl (InputValidationError (py ''Invalid PNG file signature'') (Some (py ''mask'')))
      else if length file_data < 33
      then Inl (InputValidationError (py ''PNG file too small to be valid'') (Some (py ''mask'')))
      else
        (let ws1 = (case check_ihdr file_data filename of
                      Inl e \<Rightarrow> [PNG_validation_warning e (sanitize_filename filename)]
                    | Inr ws \<Rightarrow> ws);
             sanitized_filename = sanitize_filename filename;
             ws2 = (if \<not> endswith (map ascii_lower sanitized_filename) (py ''.png'')
                    then [Mask_file_with_non_PNG_extension filename sanitized_filename]
                    else [])
         in Inr (ws1 @ ws2)))"

subsection \<open>validate_prompt\<close>

definition prompt_control_char :: "codepoint \<Rightarrow> bool" where
  "prompt_control_char c \<longleftrightarrow>
     c \<le> 0x08 \<or> c = 0x0B \<or> c = 0x0C \<or> (0x0E \<le> c \<and> c \<le> 0x1F) \<or> c = 0x7F"

definition suspicious_patterns :: "pystr list" where
  "suspicious_patterns =
     [py ''<script'', py ''javascript:'', py ''data:text/html'', py ''vbscript:'',
      py ''onload='', py ''onerror='']"

text \<open>
  The result is the exception raised, or the warnings logged (at most one: the loop
  breaks at the first pattern found) and the returned string.
\<close>

definition validate_prompt :: "pystr \<Rightarrow> exn + (warning list \<times> pystr)" where
  "validate_prompt prompt =
     (if prompt = [] \<or> strip prompt = []
      then Inl (InputValidationError (py ''Prompt cannot be empty'') (Some (py ''prompt'')))
      else
        (let prompt = strip prompt
         in if 500 < length prompt
            then Inl (InputValidationError
                        (py ''Prompt too long: '' @ str_of_nat (length prompt)
                           @ py '' characters (max 500)'')
                        (Some (py ''prompt'')))
            else if list_ex prompt_control_char prompt
            then Inl (InputValidationError (py ''Prompt contains invalid control characters'')
                        (Some (py ''prompt'')))
            else Inr ((case find (\<lambda>pattern. re_search_ignorecase pattern prompt)
                              suspicious_patterns of
                         Some pattern \<Rightarrow> [Suspicious_pattern_in_prompt pattern (take 50 prompt)]
                       | None \<Rightarrow> []),
                      prompt)))"

subsection \<open>validate_content_type, validate_image_file, validate_numeric_parameter\<close>

text \<open>
  \<open>content_type.split(';')[0].strip().lower()\<close> is compared with lower-cased allowed
  types. For the ASCII types of the source, lower-casing the ASCII letters decides the
  comparison.
\<close>

definition validate_content_type :: "pystr \<Rightarrow> pystr list \<Rightarrow> bool" where
  "validate_content_type content_type allowed_types =
     (if content_type = [] then False
      else (let base_type = map ascii_lower (strip (takeWhile (\<lambda>c. c \<noteq> 0x3B) content_type))
            in base_type \<in> set (map (map ascii_lower) allowed_types)))"

definition validate_image_file :: "bytes \<Rightarrow> pystr \<Rightarrow> pystr \<Rightarrow> exn + warning list" where
  "validate_image_file file_data filename content_type =
     (if \<not> validate_content_type content_type [py ''image/png'', py ''image/jpeg'', py ''image/jpg'']
      then Inl (InputValidationError
                  (py ''Invalid content type '' @ [0x27] @ content_type @ [0x27]
                     @ py ''. Allowed: image/png, image/jpeg, image/jpg'')
                  (Some (py ''image'')))
      else (case validate_file_signature file_data IMAGE_SIGNATURES of
              None \<Rightarrow>
                Inl (InputValidationError
                       (py ''Invalid image file format. File signature doesn't match expected image types.'')
                       (Some (py ''image'')))
            | Some detected_type \<Rightarrow>
                if detected_type = []
                then Inl (InputValidationError
                       (py ''Invalid image file format. File signature doesn't match expected image types.'')
                       (Some (py ''image'')))
                else
                  (let sanitized_filename = sanitize_filename filename;
                       lowered = map ascii_lower sanitized_filename;
                       ws1 = (if \<not> (endswith lowered (py ''.png'') \<or> endswith lowered (py ''.jpg'')
                                    \<or> endswith lowered (py ''.jpeg''))
                              then [Suspicious_filename filename sanitized_filename] else []);
                       ws2 = (if 5 * 1024 * 1024 < length file_data
                              then [Large_image_file_uploaded (length file_data) sanitized_filename]
                              else [])
                   in Inr (ws1 @ ws2))))"

text \<open>
  \<open>validate_numeric_parameter\<close> on a value that is already a float (the handler's
  parameters are typed \<open>Optional[float]\<close>); floats are modelled by reals. The message
  shows the numbers through \<open>str\<close> of a float, a parameter \<open>str_float\<close>.
\<close>

definition validate_numeric_parameter ::
  "(real \<Rightarrow> pystr) \<Rightarrow> real \<Rightarrow> pystr \<Rightarrow> real \<Rightarrow> real \<Rightarrow> exn + real" where
  "validate_numeric_parameter str_float num_value param_name min_val max_val =
     (if num_value < min_val \<or> max_val < num_value
      then Inl (InputValidationError
                  (param_name @ py '' must be between '' @ str_float min_val @ py '' and ''
                     @ str_float max_val @ py '', got '' @ str_float num_value)
                  (Some param_name))
      else Inr num_value)"

section \<open>External collaborators\<close>

text \<open>
  What the image library reports of a decoded image, and the JSON values and the HTTP
  response of the upstream API.
\<close>

record pil_image =
  format :: pystr
  mode :: pystr
  width :: nat
  height :: nat

datatype json =
    JNull
  | JBool bool
  | JNumber real
  | JString pystr
  | JArray "json list"
  | JObject "(pystr \<times> json) list"

text \<open>
  \<open>headers\<close> maps a lower-case header name to its value; \<open>json_body\<close> is what
  \<open>response.json()\<close> returns, \<open>None\<close> when it raises. A \<open>JObject\<close> holds the
  entries of the parsed dictionary, whose keys are distinct.
\<close>

record response =
  resp_status_code :: int
  headers :: "pystr \<Rightarrow> pystr option"
  content :: bytes
  json_body :: "json option"

text \<open>
  The outcome of \<open>client.post\<close>: a response, \<open>httpx.TimeoutException\<close>, another
  \<open>httpx.RequestError\<close>, or any other exception.
\<close>

datatype post_outcome =
    Responded response
  | TimeoutException
  | RequestError
  | OtherException

record payload =
  p_image :: pystr
  p_mask :: pystr
  p_prompt :: pystr
  p_strength :: real
  p_guidance_scale :: real
  p_seed :: "int option"

text \<open>
  The environment of a request: the image library (\<open>Image.open\<close>, which raises with a
  message or gives an image; the conversions and encoders of the image, the mask and the
  response image), \<open>base64.b64decode\<close> on a JSON value, \<open>str\<close> of a JSON value and of
  a float, the outbound HTTP call (URL, JSON payload, authorization header) and the image
  of the mock generator.
\<close>

record env =
  PIL_open :: "bytes \<Rightarrow> pystr + pil_image"
  encode_image :: "pil_image \<Rightarrow> pystr + pystr"
  encode_mask :: "pil_image \<Rightarrow> pystr + pystr"
  encode_response :: "pil_image \<Rightarrow> pystr + bytes"
  b64decode :: "json \<Rightarrow> bytes option"
  str_json :: "json \<Rightarrow> pystr"
  str_float :: "real \<Rightarrow> pystr"
  post :: "pystr \<Rightarrow> payload \<Rightarrow> pystr \<Rightarrow> post_outcome"
  mock_response :: bytes

section \<open>Inpaint client (services/nanobobana_client.py)\<close>

record NanoBananaClient =
  base_url :: pystr
  api_key :: pystr
  timeout :: int

definition mock_mode :: "NanoBananaClient \<Rightarrow> bool" where
  "mock_mode cl \<longleftrightarrow> api_key cl = [] \<or> api_key cl = py ''demo_key_placeholder''"

text \<open>
  \<open>_extract_error_message\<close>: \<open>json_response.get("error", json_response.get("message",
  str(status_code)))\<close>, and \<open>HTTP status\<close> when \<open>response.json()\<close> raises or the body
  is no dictionary. The value found is formatted into the message by \<open>str\<close>.
\<close>

definition format_value :: "env \<Rightarrow> json \<Rightarrow> pystr" where
  "format_value e v = (case v of JString s \<Rightarrow> s | _ \<Rightarrow> str_json e v)"

definition extract_error_message :: "env \<Rightarrow> response \<Rightarrow> pystr" where
  "extract_error_message e r =
     (case json_body r of
        Some (JObject kvs) \<Rightarrow>
          (case map_of kvs (py ''error'') of
             Some v \<Rightarrow> format_value e v
           | None \<Rightarrow>
               (case map_of kvs (py ''message'') of
                  Some v \<Rightarrow> format_value e v
                | None \<Rightarrow> str_of_int (resp_status_code r)))
      | _ \<Rightarrow> py ''HTTP '' @ str_of_int (resp_status_code r))"

text \<open>
  \<open>"image" in json_response\<close>: key membership in a dictionary, element membership in a
  list, substring in a string, and a \<open>TypeError\<close> (\<open>None\<close>) on the other values.
\<close>

definition image_in :: "json \<Rightarrow> bool option" where
  "image_in j =
     (case j of
        JObject kvs \<Rightarrow> Some (map_of kvs (py ''image'') \<noteq> None)
      | JArray xs \<Rightarrow> Some (JString (py ''image'') \<in> set xs)
      | JString s \<Rightarrow> Some (contains_at_some s (py ''image''))
      | _ \<Rightarrow> None)"

definition internal_error :: exn where
  "internal_error = HTTPException 500 (py ''Internal server error during image processing'')"

text \<open>
  Lines 84 to 133, with the handlers \<open>except HTTPException: raise\<close> and
  \<open>except Exception\<close> (status 500) applied to what the branch raises.
\<close>

definition handle_response :: "env \<Rightarrow> response \<Rightarrow> exn + bytes" where
  "handle_response e r =
     (if resp_status_code r = 200
      then (if startswith (case headers r (py ''content-type'') of None \<Rightarrow> [] | Some v \<Rightarrow> v)
                 (py ''image/'')
            then Inr (content r)
            else (case json_body r of
                    None \<Rightarrow> Inl internal_error
                  | Some json_response \<Rightarrow>
                      (case image_in json_response of
                         None \<Rightarrow> Inl internal_error
                       | Some True \<Rightarrow>
                           (case json_response of
                              JObject kvs \<Rightarrow>
                                (case map_of kvs (py ''image'') of
                                   None \<Rightarrow> Inl internal_error
                                 | Some v \<Rightarrow>
                                     (case b64decode e v of
                                        None \<Rightarrow> Inl internal_error
                                      | Some image_bytes \<Rightarrow> Inr image_bytes))
                            | _ \<Rightarrow> Inl internal_error)
                       | Some False \<Rightarrow>
                           Inl (HTTPException 502
                                  (py ''Invalid response format from NanoBanana API'')))))
      else if resp_status_code r = 400
      then Inl (HTTPException 422
                  (py ''Invalid request parameters: '' @ extract_error_message e r))
      else if resp_status_code r = 401
      then Inl (HTTPException 502 (py ''Invalid NanoBanana API key''))
      else if resp_status_code r = 429
      then (let retry_after = (case headers r (py ''retry-after'') of
                                 None \<Rightarrow> py ''60'' | Some v \<Rightarrow> v)
            in Inl (HTTPException 502
                      (py ''NanoBanana API rate limit exceeded. Retry after '' @ retry_after
                         @ py '' seconds'')))
      else if 500 \<le> resp_status_code r
      then Inl (HTTPException 502 (py ''NanoBanana API server error''))
      else Inl (HTTPException 502
                  (py ''Unexpected response from NanoBanana API: '' @ extract_error_message e r)))"

text \<open>Lines 57 to 81: the payload, the headers and the one outbound call.\<close>

definition send_request ::
  "env \<Rightarrow> NanoBananaClient \<Rightarrow> pystr \<Rightarrow> pystr \<Rightarrow> pystr \<Rightarrow> int option \<Rightarrow> real \<Rightarrow> real
     \<Rightarrow> post_outcome" where
  "send_request e cl image_base64 mask_base64 prompt seed strength guidance_scale =
     post e (base_url cl)
       \<lparr>p_image = image_base64, p_mask = mask_base64, p_prompt = prompt,
        p_strength = strength, p_guidance_scale = guidance_scale, p_seed = seed\<rparr>
       (py ''Bearer '' @ api_key cl)"

definition inpaint_image ::
  "env \<Rightarrow> NanoBananaClient \<Rightarrow> pystr \<Rightarrow> pystr \<Rightarrow> pystr \<Rightarrow> int option \<Rightarrow> real \<Rightarrow> real
     \<Rightarrow> exn + bytes" where
  "inpaint_image e cl image_base64 mask_base64 prompt seed strength guidance_scale =
     (if mock_mode cl then Inr (mock_response e)
      else (case send_request e cl image_base64 mask_base64 prompt seed strength guidance_scale of
              Responded r \<Rightarrow> handle_response e r
            | TimeoutException \<Rightarrow>
                Inl (HTTPException 502
                       (py ''Request to NanoBanana API timed out after '' @ str_of_int (timeout cl)
                          @ py '' seconds''))
            | RequestError \<Rightarrow>
                Inl (HTTPException 502 (py ''Failed to connect to NanoBanana API''))
            | OtherException \<Rightarrow> Inl internal_error))"

section \<open>Sample values\<close>

text \<open>
  A concrete environment, client and responses, on which the theorems below are
  evaluated: the image library is given by its \<open>Image.open\<close>, the outbound call by its
  outcome.
\<close>

definition sample_env :: "(bytes \<Rightarrow> pystr + pil_image) \<Rightarrow> post_outcome \<Rightarrow> env" where
  "sample_env image_open outcome =
     \<lparr>PIL_open = image_open,
      encode_image = (\<lambda>i. Inr (py ''aW1hZ2U='')),
      encode_mask = (\<lambda>m. Inr (py ''bWFzaw=='')),
      encode_response = (\<lambda>i. Inr PNG_SIGNATURE),
      b64decode = (\<lambda>j. None),
      str_json = (\<lambda>j. py ''?''),
      str_float = (\<lambda>x. py ''?''),
      post = (\<lambda>url body auth. outcome),
      mock_response = PNG_SIGNATURE\<rparr>"

definition sample_client :: NanoBananaClient where
  "sample_client =
     \<lparr>base_url = py ''https://api.nanobanana.ai/v1/inpaint'', api_key = py ''k'', timeout = 120\<rparr>"

definition sample_response :: "int \<Rightarrow> response" where
  "sample_response code =
     \<lparr>resp_status_code = code,
      headers = [py ''retry-after'' \<mapsto> py ''7''],
      content = [],
      json_body = Some (JObject [(py ''error'', JString (py ''bad mask''))])\<rparr>"


section \<open>Request validation pipeline (inbound_validation.py)\<close>

text \<open>
  An uploaded file: its name, its declared size, its content type, and the bytes that
  \<open>read()\<close> returns (the file pointer is reset after every read, so every reader sees
  the same bytes). The validator object holds the configuration.
\<close>

record UploadFile =
  filename :: "pystr option"
  file_size :: "nat option"
  content_type :: "pystr option"
  file_bytes :: bytes

record InboundValidator =
  max_image_size :: int
  max_image_dimension :: int
  min_image_dimension :: int
  strict_validation :: bool

text \<open>
  \<open>_validate_image_dimensions\<close>. Every exception of the block that is no
  \<open>InputValidationError\<close> is turned into one: a failure of \<open>Image.open\<close>, and the
  division by a zero height in the aspect ratio.
\<close>

definition validate_image_dimensions :: "env \<Rightarrow> InboundValidator \<Rightarrow> bytes \<Rightarrow> exn + unit" where
  "validate_image_dimensions e v image_data =
     (case PIL_open e image_data of
        Inl msg \<Rightarrow>
          Inl (InputValidationError (py ''Failed to validate image dimensions: '' @ msg)
                 (Some (py ''image'')))
      | Inr img \<Rightarrow>
          if int (width img) < min_image_dimension v \<or> int (height img) < min_image_dimension v
          then Inl (InputValidationError
                      (py ''Image too small: '' @ str_of_nat (width img) @ py ''x''
                         @ str_of_nat (height img) @ py '' (minimum ''
                         @ str_of_int (min_image_dimension v) @ py ''x''
                         @ str_of_int (min_image_dimension v) @ py '')'')
                      (Some (py ''image'')))
          else if max_image_dimension v < int (width img) \<or> max_image_dimension v < int (height img)
          then Inl (InputValidationError
                      (py ''Image too large: '' @ str_of_nat (width img) @ py ''x''
                         @ str_of_nat (height img) @ py '' (maximum ''
                         @ str_of_int (max_image_dimension v) @ py ''x''
                         @ str_of_int (max_image_dimension v) @ py '')'')
                      (Some (py ''image'')))
          else if height img = 0
          then Inl (InputValidationError
                      (py ''Failed to validate image dimensions: division by zero'')
                      (Some (py ''image'')))
          else Inr ())"

text \<open>\<open>_validate_mask_content\<close>: the colour mode and the bounds of the mask alone.\<close>

definition validate_mask_content :: "env \<Rightarrow> InboundValidator \<Rightarrow> bytes \<Rightarrow> exn + unit" where
  "validate_mask_content e v mask_data =
     (case PIL_open e mask_data of
        Inl msg \<Rightarrow>
          Inl (InputValidationError (py ''Failed to validate mask content: '' @ msg)
                 (Some (py ''mask'')))
      | Inr msk \<Rightarrow>
          if mode msk \<notin> set [py ''RGBA'', py ''LA'', py ''L'', py ''P''] \<and> strict_validation v
          then Inl (InputValidationError
                      (py ''Mask has invalid color mode: '' @ mode msk
                         @ py ''. Expected RGBA, LA, L, or P'')
                      (Some (py ''mask'')))
          else if int (width msk) < min_image_dimension v \<or> int (height msk) < min_image_dimension v
          then Inl (InputValidationError
                      (py ''Mask too small: '' @ str_of_nat (width msk) @ py ''x''
                         @ str_of_nat (height msk) @ py '' (minimum ''
                         @ str_of_int (min_image_dimension v) @ py ''x''
                         @ str_of_int (min_image_dimension v) @ py '')'')
                      (Some (py ''mask'')))
          else if max_image_dimension v < int (width msk) \<or> max_image_dimension v < int (height msk)
          then Inl (InputValidationError
                      (py ''Mask too large: '' @ str_of_nat (width msk) @ py ''x''
                         @ str_of_nat (height msk) @ py '' (maximum ''
                         @ str_of_int (max_image_dimension v) @ py ''x''
                         @ str_of_int (max_image_dimension v) @ py '')'')
                      (Some (py ''mask'')))
          else Inr ())"

text \<open>
  \<open>_validate_uploaded_image\<close> and \<open>_validate_uploaded_mask\<close>: presence, declared size,
  emptiness, content validation, decoded dimensions. The warnings of the content
  validation are logged and play no further role.
\<close>

definition validate_uploaded_image :: "env \<Rightarrow> InboundValidator \<Rightarrow> UploadFile option \<Rightarrow> exn + unit" where
  "validate_uploaded_image e v img =
     (case img of
        None \<Rightarrow> Inl (InputValidationError (py ''Image file is required'') (Some (py ''image'')))
      | Some f \<Rightarrow>
          (case filename f of
             None \<Rightarrow> Inl (InputValidationError (py ''Image file is required'') (Some (py ''image'')))
           | Some name \<Rightarrow>
               if name = []
               then Inl (InputValidationError (py ''Image file is required'') (Some (py ''image'')))
               else if (case file_size f of None \<Rightarrow> False
                        | Some n \<Rightarrow> n \<noteq> 0 \<and> max_image_size v < int n)
               then Inl (InputValidationError
                           (py ''Image file too large: '' @ str_of_nat (the (file_size f))
                              @ py '' bytes (max '' @ str_of_int (max_image_size v) @ py '')'')
                           (Some (py ''image'')))
               else if length (file_bytes f) = 0
               then Inl (InputValidationError (py ''Image file is empty'') (Some (py ''image'')))
               else (case validate_image_file (file_bytes f) name
                            (case content_type f of None \<Rightarrow> [] | Some c \<Rightarrow> c) of
                       Inl ex \<Rightarrow> Inl ex
                     | Inr ws \<Rightarrow> validate_image_dimensions e v (file_bytes f))))"

definition validate_uploaded_mask :: "env \<Rightarrow> InboundValidator \<Rightarrow> UploadFile option \<Rightarrow> exn + unit" where
  "validate_uploaded_mask e v msk =
     (case msk of
        None \<Rightarrow> Inl (InputValidationError (py ''Mask file is required'') (Some (py ''mask'')))
      | Some f \<Rightarrow>
          (case filename f of
             None \<Rightarrow> Inl (InputValidationError (py ''Mask file is required'') (Some (py ''mask'')))
           | Some name \<Rightarrow>
               if name = []
               then Inl (InputValidationError (py ''Mask file is required'') (Some (py ''mask'')))
               else if (case file_size f of None \<Rightarrow> False
                        | Some n \<Rightarrow> n \<noteq> 0 \<and> max_image_size v < int n)
               then Inl (InputValidationError
                           (py ''Mask file too large: '' @ str_of_nat (the (file_size f))
                              @ py '' bytes (max '' @ str_of_int (max_image_size v) @ py '')'')
                           (Some (py ''mask'')))
               else if length (file_bytes f) = 0
               then Inl (InputValidationError (py ''Mask file is empty'') (Some (py ''mask'')))
               else (case validate_mask_file (file_bytes f) name
                            (case content_type f of None \<Rightarrow> [] | Some c \<Rightarrow> c) of
                       Inl ex \<Rightarrow> Inl ex
                     | Inr ws \<Rightarrow> validate_mask_content e v (file_bytes f))))"

text \<open>\<open>_validate_prompt_text\<close>: \<open>validate_prompt\<close>, and two more warnings.\<close>

definition validate_prompt_text :: "pystr \<Rightarrow> exn + pystr" where
  "validate_prompt_text prompt =
     (case validate_prompt prompt of
        Inl ex \<Rightarrow> Inl ex
      | Inr (ws, validated_prompt) \<Rightarrow> Inr validated_prompt)"

text \<open>
  \<open>_validate_parameters\<close> and the dictionary that \<open>validate_inpaint_request\<close> returns.
\<close>

record validation_result =
  valid :: bool
  v_prompt :: pystr
  v_seed :: "int option"
  v_strength :: real
  v_guidance_scale :: real

definition validate_parameters ::
  "env \<Rightarrow> int option \<Rightarrow> real option \<Rightarrow> real option \<Rightarrow> exn + (int option \<times> real \<times> real)" where
  "validate_parameters e seed strength guidance_scale =
     (if (case seed of None \<Rightarrow> False | Some s \<Rightarrow> s < 0 \<or> 2147483647 < s)
      then Inl (InputValidationError
                  (py ''Seed must be integer between 0 and 2147483647, got '' @ str_of_int (the seed))
                  (Some (py ''seed'')))
      else (case (case strength of
                    None \<Rightarrow> Inr (4 / 5)
                  | Some x \<Rightarrow> validate_numeric_parameter (str_float e) x (py ''strength'') 0 1) of
              Inl ex \<Rightarrow> Inl ex
            | Inr validated_strength \<Rightarrow>
                (case (case guidance_scale of
                         None \<Rightarrow> Inr (15 / 2)
                       | Some x \<Rightarrow>
                           validate_numeric_parameter (str_float e) x (py ''guidance_scale'') 1 20) of
                   Inl ex \<Rightarrow> Inl ex
                 | Inr validated_guidance_scale \<Rightarrow>
                     Inr (seed, validated_strength, validated_guidance_scale))))"

text \<open>
  What a request leaves behind besides its response: the metrics recorded and the calls
  made to the image normalizer and to the inpaint client.
\<close>

datatype event =
    Mask_operation_metric pystr pystr
  | Image_processing_metric pystr
  | Nanobanana_metric pystr int
  | Call_validate_and_process_image
  | Call_validate_and_process_mask
  | Call_inpaint_image
  | Call_create_response_image

text \<open>The four stages of the \<open>try\<close> block, each run only when the one before returned.\<close>

definition validation_stages ::
  "env \<Rightarrow> InboundValidator \<Rightarrow> UploadFile option \<Rightarrow> UploadFile option \<Rightarrow> pystr \<Rightarrow> int option
     \<Rightarrow> real option \<Rightarrow> real option \<Rightarrow> exn + validation_result" where
  "validation_stages e v img msk prompt seed strength guidance_scale =
     (case validate_uploaded_image e v img of
        Inl ex \<Rightarrow> Inl ex
      | Inr u \<Rightarrow>
          (case validate_uploaded_mask e v msk of
             Inl ex \<Rightarrow> Inl ex
           | Inr u \<Rightarrow>
               (case validate_prompt_text prompt of
                  Inl ex \<Rightarrow> Inl ex
                | Inr validated_prompt \<Rightarrow>
                    (case validate_parameters e seed strength guidance_scale of
                       Inl ex \<Rightarrow> Inl ex
                     | Inr (sd, st, gs) \<Rightarrow>
                         Inr \<lparr>valid = True, v_prompt = validated_prompt, v_seed = sd,
                              v_strength = st, v_guidance_scale = gs\<rparr>))))"

text \<open>
  \<open>validate_inpaint_request\<close>: an \<open>InputValidationError\<close> is recorded and raised again,
  any other exception becomes a 500.
\<close>

definition validate_inpaint_request ::
  "env \<Rightarrow> InboundValidator \<Rightarrow> UploadFile option \<Rightarrow> UploadFile option \<Rightarrow> pystr \<Rightarrow> int option
     \<Rightarrow> real option \<Rightarrow> real option \<Rightarrow> event list \<times> (exn + validation_result)" where
  "validate_inpaint_request e v img msk prompt seed strength guidance_scale =
     (case validation_stages e v img msk prompt seed strength guidance_scale of
        Inr r \<Rightarrow> ([Mask_operation_metric (py ''validation'') (py ''success'')], Inr r)
      | Inl (InputValidationError d f) \<Rightarrow>
          ([Mask_operation_metric (py ''validation'') (py ''error'')],
           Inl (InputValidationError d f))
      | Inl (HTTPException c d) \<Rightarrow>
          ([Mask_operation_metric (py ''validation'') (py ''error'')],
           Inl (HTTPException 500 (py ''Internal validation error''))))"

section \<open>Image normalizer (services/image_processor.py)\<close>

text \<open>
  The conversions of the image library keep the size of the image, so the size returned
  is the size of the decoded image. Every exception of a block that is no
  \<open>HTTPException\<close> is turned into one with the message of the exception.
\<close>

definition validate_and_process_image :: "env \<Rightarrow> UploadFile \<Rightarrow> exn + (pystr \<times> (nat \<times> nat))" where
  "validate_and_process_image e file =
     (case PIL_open e (file_bytes file) of
        Inl msg \<Rightarrow> Inl (HTTPException 422 (py ''Error processing image: '' @ msg))
      | Inr img \<Rightarrow>
          if format img \<notin> set [py ''PNG'', py ''JPEG'']
          then Inl (HTTPException 422 (py ''Image must be PNG or JPEG format''))
          else if 2048 < width img \<or> 2048 < height img
          then Inl (HTTPException 422 (py ''Image dimensions must not exceed 2048x2048''))
          else if width img < 256 \<or> height img < 256
          then Inl (HTTPException 422 (py ''Image dimensions must be at least 256x256''))
          else (case encode_image e img of
                  Inl msg \<Rightarrow> Inl (HTTPException 422 (py ''Error processing image: '' @ msg))
                | Inr base64_image \<Rightarrow> Inr (base64_image, (width img, height img))))"

definition validate_and_process_mask :: "env \<Rightarrow> UploadFile \<Rightarrow> nat \<times> nat \<Rightarrow> exn + pystr" where
  "validate_and_process_mask e file image_size =
     (case PIL_open e (file_bytes file) of
        Inl msg \<Rightarrow> Inl (HTTPException 422 (py ''Error processing mask: '' @ msg))
      | Inr msk \<Rightarrow>
          if format msk \<noteq> py ''PNG''
          then Inl (HTTPException 422 (py ''Mask must be PNG format''))
          else if mode msk \<notin> set [py ''RGBA'', py ''LA'', py ''L'']
          then Inl (HTTPException 422
                      (py ''Mask must have transparency (alpha channel) or be grayscale''))
          else if (width msk, height msk) \<noteq> image_size
          then Inl (HTTPException 422
                      (py ''Mask dimensions '' @ str_of_nat (width msk) @ py ''x''
                         @ str_of_nat (height msk) @ py '' must match image dimensions ''
                         @ str_of_nat (fst image_size) @ py ''x'' @ str_of_nat (snd image_size)))
          else (case encode_mask e msk of
                  Inl msg \<Rightarrow> Inl (HTTPException 422 (py ''Error processing mask: '' @ msg))
                | Inr base64_mask \<Rightarrow> Inr base64_mask))"

definition create_response_image :: "env \<Rightarrow> bytes \<Rightarrow> exn + bytes" where
  "create_response_image e image_data =
     (case PIL_open e image_data of
        Inl msg \<Rightarrow> Inl (HTTPException 500 (py ''Error processing response image: '' @ msg))
      | Inr img \<Rightarrow>
          (case encode_response e img of
             Inl msg \<Rightarrow> Inl (HTTPException 500 (py ''Error processing response image: '' @ msg))
           | Inr png \<Rightarrow> Inr png))"

section \<open>HTTP handler (api/inpaint.py)\<close>

record http_response =
  body :: bytes
  media_type :: pystr

text \<open>
  The \<open>except\<close> clauses of the handler: an \<open>InputValidationError\<close> is raised again as
  \<open>HTTPException(422, detail)\<close>, every other \<open>HTTPException\<close> as it is.
\<close>

fun except_clauses :: "exn \<Rightarrow> exn" where
  "except_clauses (InputValidationError d f) = HTTPException 422 d"
| "except_clauses (HTTPException c d) = HTTPException c d"

text \<open>
  The endpoint \<open>inpaint_image\<close> of api/inpaint.py (named apart from the client's method):
  validation, image, mask, the external call, the response image. Each stage runs only
  when the one before returned.
\<close>

definition api_inpaint_image ::
  "env \<Rightarrow> InboundValidator \<Rightarrow> NanoBananaClient \<Rightarrow> UploadFile \<Rightarrow> UploadFile \<Rightarrow> pystr \<Rightarrow> int option
     \<Rightarrow> real option \<Rightarrow> real option \<Rightarrow> event list \<times> (exn + http_response)" where
  "api_inpaint_image e v cl img msk prompt seed strength guidance_scale =
     (case validate_inpaint_request e v (Some img) (Some msk) prompt seed strength guidance_scale of
        (ev, Inl ex) \<Rightarrow> (ev, Inl (except_clauses ex))
      | (ev, Inr validation_result) \<Rightarrow>
          (let ev1 = ev @ [Image_processing_metric (py ''validation''), Call_validate_and_process_image]
           in case validate_and_process_image e img of
                Inl ex \<Rightarrow> (ev1, Inl (except_clauses ex))
              | Inr (image_base64, image_size) \<Rightarrow>
                  (let ev2 = ev1 @ [Image_processing_metric (py ''image_processing''),
                                    Call_validate_and_process_mask]
                   in case validate_and_process_mask e msk image_size of
                        Inl ex \<Rightarrow> (ev2, Inl (except_clauses ex))
                      | Inr mask_base64 \<Rightarrow>
                          (let ev3 = ev2 @ [Image_processing_metric (py ''mask_processing''),
                                            Call_inpaint_image]
                           in case inpaint_image e cl image_base64 mask_base64
                                     (v_prompt validation_result) (v_seed validation_result)
                                     (v_strength validation_result)
                                     (v_guidance_scale validation_result) of
                                Inl ex \<Rightarrow> (ev3, Inl (except_clauses ex))
                              | Inr result_image_data \<Rightarrow>
                                  (let ev4 = ev3 @ [Nanobanana_metric (py ''inpaint'') 200,
                                                    Call_create_response_image]
                                   in case create_response_image e result_image_data of
                                        Inl ex \<Rightarrow> (ev4, Inl (except_clauses ex))
                                      | Inr processed_image \<Rightarrow>
                                          (ev4 @ [Image_processing_metric (py ''result_processing'')],
                                           Inr \<lparr>body = processed_image,
                                                media_type = py ''image/png''\<rparr>))))))"

section \<open>Sample request\<close>

text \<open>
  Two complete PNG files. The image is 512 by 512 pixels, RGB with 8 bits per channel,
  every pixel black; the mask is 256 by 256 pixels, RGBA with 8 bits per channel, every
  pixel transparent. Each file is the PNG signature, the \<open>IHDR\<close> chunk (width, height,
  bit depth, colour type, compression, filter and interlace method), one \<open>IDAT\<close> chunk
  holding the zlib stream of the pixel rows, and the \<open>IEND\<close> chunk, every chunk with
  its length and its CRC. \<open>sample_image_data\<close> and \<open>sample_mask_data\<close> are the \<open>IDAT\<close>
  and \<open>IEND\<close> chunks.
\<close>

definition sample_image_data :: bytes where
  "sample_image_data =
     [0x00, 0x00, 0x03, 0x11, 0x49, 0x44, 0x41, 0x54, 0x78, 0xDA, 0xED, 0xC1, 0x81, 0x00,
      0x00, 0x00, 0x00, 0xC3, 0xA0, 0xF9, 0x53, 0x5F, 0xE1, 0x00, 0x55, 0x01, 0x00, 0x00,
      0x00, 0x00, 0x00, 0x00, 0x00, 0x00, 0x00, 0x00, 0x00, 0x00, 0x00, 0x00, 0x00, 0x00,
      0x00, 0x00, 0x00, 0x00, 0x00, 0x00, 0x00, 0x00, 0x00, 0x00, 0x00, 0x00, 0x00, 0x00,
      0x00, 0x00, 0x00, 0x00, 0x00, 0x00, 0x00, 0x00, 0x00, 0x00, 0x00, 0x00, 0x00, 0x00,
      0x00, 0x00, 0x00, 0x00, 0x00, 0x00, 0x00, 0x00, 0x00, 0x00, 0x00, 0x00, 0x00, 0x00,
      0x00, 0x00, 0x00, 0x00, 0x00, 0x00, 0x00, 0x00, 0x00, 0x00, 0x00, 0x00, 0x00, 0x00,
      0x00, 0x00, 0x00, 0x00, 0x00, 0x00, 0x00, 0x00, 0x00, 0x00, 0x00, 0x00, 0x00, 0x00,
      0x00, 0x00, 0x00, 0x00, 0x00, 0x00, 0x00, 0x00, 0x00, 0x00, 0x00, 0x00, 0x00, 0x00,
      0x00, 0x00, 0x00, 0x00, 0x00, 0x00, 0x00, 0x00, 0x00, 0x00, 0x00, 0x00, 0x00, 0x00,
      0x00, 0x00, 0x00, 0x00, 0x00, 0x00, 0x00, 0x00, 0x00, 0x00, 0x00, 0x00, 0x00, 0x00,
      0x00, 0x00, 0x00, 0x00, 0x00, 0x00, 0x00, 0x00, 0x00, 0x00, 0x00, 0x00, 0x00, 0x00,
      0x00, 0x00, 0x00, 0x00, 0x00, 0x00, 0x00, 0x00, 0x00, 0x00, 0x00, 0x00, 0x00, 0x00,
      0x00, 0x00, 0x00, 0x00, 0x00, 0x00, 0x00, 0x00, 0x00, 0x00, 0x00, 0x00, 0x00, 0x00,
      0x00, 0x00, 0x00, 0x00, 0x00, 0x00, 0x00, 0x00, 0x00, 0x00, 0x00, 0x00, 0x00, 0x00,
      0x00, 0x00, 0x00, 0x00, 0x00, 0x00, 0x00, 0x00, 0x00, 0x00, 0x00, 0x00, 0x00, 0x00,
      0x00, 0x00, 0x00, 0x00, 0x00, 0x00, 0x00, 0x00, 0x00, 0x00, 0x00, 0x00, 0x00, 0x00,
      0x00, 0x00, 0x00, 0x00, 0x00, 0x00, 0x00, 0x00, 0x00, 0x00, 0x00, 0x00, 0x00, 0x00,
      0x00, 0x00, 0x00, 0x00, 0x00, 0x00, 0x00, 0x00, 0x00, 0x00, 0x00, 0x00, 0x00, 0x00,
      0x00, 0x00, 0x00, 0x00, 0x00, 0x00, 0x00, 0x00, 0x00, 0x00, 0x00, 0x00, 0x00, 0x00,
      0x00, 0x00, 0x00, 0x00, 0x00, 0x00, 0x00, 0x00, 0x00, 0x00, 0x00, 0x00, 0x00, 0x00,
      0x00, 0x00, 0x00, 0x00, 0x00, 0x00, 0x00, 0x00, 0x00, 0x00, 0x00, 0x00, 0x00, 0x00,
      0x00, 0x00, 0x00, 0x00, 0x00, 0x00, 0x00, 0x00, 0x00, 0x00, 0x00, 0x00, 0x00, 0x00,
      0x00, 0x00, 0x00, 0x00, 0x00, 0x00, 0x00, 0x00, 0x00, 0x00, 0x00, 0x00, 0x00, 0x00,
      0x00, 0x00, 0x00, 0x00, 0x00, 0x00, 0x00, 0x00, 0x00, 0x00, 0x00, 0x00, 0x00, 0x00,
      0x00, 0x00, 0x00, 0x00, 0x00, 0x00, 0x00, 0x00, 0x00, 0x00, 0x00, 0x00, 0x00, 0x00,
      0x00, 0x00, 0x00, 0x00, 0x00, 0x00, 0x00, 0x00, 0x00, 0x00, 0x00, 0x00, 0x00, 0x00,
      0x00, 0x00, 0x00, 0x00, 0x00, 0x00, 0x00, 0x00, 0x00, 0x00, 0x00, 0x00, 0x00, 0x00,
      0x00, 0x00, 0x00, 0x00, 0x00, 0x00, 0x00, 0x00, 0x00, 0x00, 0x00, 0x00, 0x00, 0x00,
      0x00, 0x00, 0x00, 0x00, 0x00, 0x00, 0x00, 0x00, 0x00, 0x00, 0x00, 0x00, 0x00, 0x00,
      0x00, 0x00, 0x00, 0x00, 0x00, 0x00, 0x00, 0x00, 0x00, 0x00, 0x00, 0x00, 0x00, 0x00,
      0x00, 0x00, 0x00, 0x00, 0x00, 0x00, 0x00, 0x00, 0x00, 0x00, 0x00, 0x00, 0x00, 0x00,
      0x00, 0x00, 0x00, 0x00, 0x00, 0x00, 0x00, 0x00, 0x00, 0x00, 0x00, 0x00, 0x00, 0x00,
      0x00, 0x00, 0x00, 0x00, 0x00, 0x00, 0x00, 0x00, 0x00, 0x00, 0x00, 0x00, 0x00, 0x00,
      0x00, 0x00, 0x00, 0x00, 0x00, 0x00, 0x00, 0x00, 0x00, 0x00, 0x00, 0x00, 0x00, 0x00,
      0x00, 0x00, 0x00, 0x00, 0x00, 0x00, 0x00, 0x00, 0x00, 0x00, 0x00, 0x00, 0x00, 0x00,
      0x00, 0x00, 0x00, 0x00, 0x00, 0x00, 0x00, 0x00, 0x00, 0x00, 0x00, 0x00, 0x00, 0x00,
      0x00, 0x00, 0x00, 0x00, 0x00, 0x00, 0x00, 0x00, 0x00, 0x00, 0x00, 0x00, 0x00, 0x00,
      0x00, 0x00, 0x00, 0x00, 0x00, 0x00, 0x00, 0x00, 0x00, 0x00, 0x00, 0x00, 0x00, 0x00,
      0x00, 0x00, 0x00, 0x00, 0x00, 0x00, 0x00, 0x00, 0x00, 0x00, 0x00, 0x00, 0x00, 0x00,
      0x00, 0x00, 0x00, 0x00, 0x00, 0x00, 0x00, 0x00, 0x00, 0x00, 0x00, 0x00, 0x00, 0x00,
      0x00, 0x00, 0x00, 0x00, 0x00, 0x00, 0x00, 0x00, 0x00, 0x00, 0x00, 0x00, 0x00, 0x00,
      0x00, 0x00, 0x00, 0x00, 0x00, 0x00, 0x00, 0x00, 0x00, 0x00, 0x00, 0x00, 0x00, 0x00,
      0x00, 0x00, 0x00, 0x00, 0x00, 0x00, 0x00, 0x00, 0x00, 0x00, 0x00, 0x00, 0x00, 0x00,
      0x00, 0x00, 0x00, 0x00, 0x00, 0x00, 0x00, 0x00, 0x00, 0x00, 0x00, 0x00, 0x00, 0x00,
      0x00, 0x00, 0x00, 0x00, 0x00, 0x00, 0x00, 0x00, 0x00, 0x00, 0x00, 0x00, 0x00, 0x00,
      0x00, 0x00, 0x00, 0x00, 0x00, 0x00, 0x00, 0x00, 0x00, 0x00, 0x00, 0x00, 0x00, 0x00,
      0x00, 0x00, 0x00, 0x00, 0x00, 0x00, 0x00, 0x00, 0x00, 0x00, 0x00, 0x00, 0x00, 0x00,
      0x00, 0x00, 0x00, 0x00, 0x00, 0x00, 0x00, 0x00, 0x00, 0x00, 0x00, 0x00, 0x00, 0x00,
      0x00, 0x00, 0x00, 0x00, 0x00, 0x00, 0x00, 0x00, 0x00, 0x00, 0x00, 0x00, 0x00, 0x00,
      0x00, 0x00, 0x00, 0x00, 0x00, 0x00, 0x00, 0x00, 0x00, 0x00, 0x00, 0x00, 0x00, 0x00,
      0x00, 0x00, 0x00, 0x00, 0x00, 0x00, 0x00, 0x00, 0x00, 0x00, 0x00, 0x00, 0x00, 0x00,
      0x00, 0x00, 0x00, 0x00, 0x00, 0x00, 0x00, 0x00, 0x00, 0x00, 0x00, 0x00, 0x00, 0x00,
      0x00, 0x00, 0x00, 0x00, 0x00, 0x00, 0x00, 0x00, 0x00, 0x00, 0x00, 0x00, 0x00, 0x00,
      0x00, 0x00, 0x00, 0x00, 0x00, 0x00, 0x00, 0x00, 0x00, 0x00, 0x00, 0x00, 0x00, 0x00,
      0x00, 0x00, 0x00, 0x00, 0x00, 0x00, 0x00, 0x00, 0x00, 0x00, 0x00, 0x00, 0x00, 0x00,
      0x00, 0x00, 0x00, 0xC0, 0x6F, 0x02, 0xB4, 0x00, 0x01, 0xFF, 0xD8, 0x04, 0x50, 0x00,
      0x00, 0x00, 0x00, 0x49, 0x45, 0x4E, 0x44, 0xAE, 0x42, 0x60, 0x82]"

definition sample_image_bytes :: bytes where
  "sample_image_bytes =
     PNG_SIGNATURE @ [0, 0, 0, 13] @ bytes_lit ''IHDR''
       @ [0x00, 0x00, 0x02, 0x00, 0x00, 0x00, 0x02, 0x00, 0x08, 0x02, 0x00, 0x00, 0x00,
          0x7B, 0x1A, 0x43, 0xAD]
       @ sample_image_data"

definition sample_mask_data :: bytes where
  "sample_mask_data =
     [0x00, 0x00, 0x01, 0x15, 0x49, 0x44, 0x41, 0x54, 0x78, 0xDA, 0xED, 0xC1, 0x31, 0x01,
      0x00, 0x00, 0x00, 0xC2, 0xA0, 0xF5, 0x4F, 0xED, 0x6B, 0x08, 0xA0, 0x00, 0x00, 0x00,
      0x00, 0x00, 0x00, 0x00, 0x00, 0x00, 0x00, 0x00, 0x00, 0x00, 0x00, 0x00, 0x00, 0x00,
      0x00, 0x00, 0x00, 0x00, 0x00, 0x00, 0x00, 0x00, 0x00, 0x00, 0x00, 0x00, 0x00, 0x00,
      0x00, 0x00, 0x00, 0x00, 0x00, 0x00, 0x00, 0x00, 0x00, 0x00, 0x00, 0x00, 0x00, 0x00,
      0x00, 0x00, 0x00, 0x00, 0x00, 0x00, 0x00, 0x00, 0x00, 0x00, 0x00, 0x00, 0x00, 0x00,
      0x00, 0x00, 0x00, 0x00, 0x00, 0x00, 0x00, 0x00, 0x00, 0x00, 0x00, 0x00, 0x00, 0x00,
      0x00, 0x00, 0x00, 0x00, 0x00, 0x00, 0x00, 0x00, 0x00, 0x00, 0x00, 0x00, 0x00, 0x00,
      0x00, 0x00, 0x00, 0x00, 0x00, 0x00, 0x00, 0x00, 0x00, 0x00, 0x00, 0x00, 0x00, 0x00,
      0x00, 0x00, 0x00, 0x00, 0x00, 0x00, 0x00, 0x00, 0x00, 0x00, 0x00, 0x00, 0x00, 0x00,
      0x00, 0x00, 0x00, 0x00, 0x00, 0x00, 0x00, 0x00, 0x00, 0x00, 0x00, 0x00, 0x00, 0x00,
      0x00, 0x00, 0x00, 0x00, 0x00, 0x00, 0x00, 0x00, 0x00, 0x00, 0x00, 0x00, 0x00, 0x00,
      0x00, 0x00, 0x00, 0x00, 0x00, 0x00, 0x00, 0x00, 0x00, 0x00, 0x00, 0x00, 0x00, 0x00,
      0x00, 0x00, 0x00, 0x00, 0x00, 0x00, 0x00, 0x00, 0x00, 0x00, 0x00, 0x00, 0x00, 0x00,
      0x00, 0x00, 0x00, 0x00, 0x00, 0x00, 0x00, 0x00, 0x00, 0x00, 0x00, 0x00, 0x00, 0x00,
      0x00, 0x00, 0x00, 0x00, 0x00, 0x00, 0x00, 0x00, 0x00, 0x00, 0x00, 0x00, 0x00, 0x00,
      0x00, 0x00, 0x00, 0x00, 0x00, 0x00, 0x00, 0x00, 0x00, 0x00, 0x00, 0x00, 0x00, 0x00,
      0x00, 0x00, 0x00, 0x00, 0x00, 0x00, 0x00, 0x00, 0x00, 0x00, 0x00, 0x00, 0x00, 0x00,
      0x00, 0x00, 0x00, 0x00, 0x00, 0x00, 0x00, 0x00, 0x00, 0x00, 0x00, 0x00, 0x00, 0x00,
      0x00, 0x00, 0x00, 0x00, 0x00, 0x00, 0x00, 0x00, 0x00, 0x00, 0x00, 0x00, 0x00, 0x78,
      0x03, 0x01, 0x3C, 0x00, 0x01, 0xD8, 0x29, 0x43, 0x04, 0x00, 0x00, 0x00, 0x00, 0x49,
      0x45, 0x4E, 0x44, 0xAE, 0x42, 0x60, 0x82]"

definition sample_mask_bytes :: bytes where
  "sample_mask_bytes =
     PNG_SIGNATURE @ [0, 0, 0, 13] @ bytes_lit ''IHDR''
       @ [0x00, 0x00, 0x01, 0x00, 0x00, 0x00, 0x01, 0x00, 0x08, 0x06, 0x00, 0x00, 0x00,
          0x5C, 0x72, 0xA8, 0x66]
       @ sample_mask_data"

text \<open>
  What \<open>Image.open\<close> reports of the two sample files. Every other byte string is taken
  as not identified; the sample request holds no other.
\<close>

definition sample_open :: "bytes \<Rightarrow> pystr + pil_image" where
  "sample_open b =
     (if b = sample_image_bytes
      then Inr \<lparr>format = py ''PNG'', mode = py ''RGB'', width = 512, height = 512\<rparr>
      else if b = sample_mask_bytes
      then Inr \<lparr>format = py ''PNG'', mode = py ''RGBA'', width = 256, height = 256\<rparr>
      else Inl (py ''cannot identify image file''))"

text \<open>
  The two files uploaded as \<open>test.png\<close> and \<open>mask.png\<close>, with their sizes in bytes; the
  default configuration of the validator.
\<close>

definition sample_image :: UploadFile where
  "sample_image =
     \<lparr>filename = Some (py ''test.png''), file_size = Some 842,
      content_type = Some (py ''image/png''), file_bytes = sample_image_bytes\<rparr>"

definition sample_mask :: UploadFile where
  "sample_mask =
     \<lparr>filename = Some (py ''mask.png''), file_size = Some 334,
      content_type = Some (py ''image/png''), file_bytes = sample_mask_bytes\<rparr>"

definition sample_validator :: InboundValidator where
  "sample_validator =
     \<lparr>max_image_size = 10 * 1024 * 1024, max_image_dimension = 2048,
      min_image_dimension = 256, strict_validation = True\<rparr>"

section \<open>Properties of the limiter\<close>

subsection \<open>Rounding to a float\<close>

text \<open>
  \<open>pow2\<close> and \<open>exponent\<close> compute the power of two and the floor of the binary
  logarithm.
\<close>

lemma pow2_powr: "pow2 e = 2 powr of_int e"
proof (cases "0 \<le> e")
  case True
  then have "(2::real) powr of_int e = 2 powr real (nat e)" by simp
  also have "\<dots> = 2 ^ nat e" by (rule powr_realpow) simp
  finally show ?thesis using True by (simp add: pow2_def)
next
  case False
  then have "(2::real) powr of_int e = 2 powr (- real (nat (- e)))" by simp
  also have "\<dots> = 1 / 2 powr real (nat (- e))" by (simp add: powr_minus divide_inverse)
  also have "(2::real) powr real (nat (- e)) = 2 ^ nat (- e)" by (rule powr_realpow) simp
  finally show ?thesis using False by (simp add: pow2_def)
qed

lemma exponent_bounds:
  assumes "0 < x"
  shows "pow2 (exponent x) \<le> x" "x < pow2 (exponent x + 1)"
proof -
  have "pow2 (exponent x) \<le> x \<and> x < pow2 (exponent x + 1)"
  proof (cases "1 \<le> x")
    case True
    let ?a = "\<lfloor>x\<rfloor>"
    have a: "0 < ?a" using True by simp
    have b: "1 \<le> bitlen ?a" using a by (auto simp: bitlen_alt_def)
    from bitlen_bounds [OF a]
    have l: "2 ^ nat (bitlen ?a - 1) \<le> ?a" and u: "?a < 2 ^ nat (bitlen ?a)" by simp_all
    have "real_of_int (2 ^ nat (bitlen ?a - 1)) \<le> real_of_int ?a"
      using l by (simp only: of_int_le_iff)
    then have 1: "(2::real) ^ nat (bitlen ?a - 1) \<le> x"
      by (simp add: le_floor_iff)
    have "?a + 1 \<le> 2 ^ nat (bitlen ?a)" using u by simp
    then have "real_of_int (?a + 1) \<le> real_of_int (2 ^ nat (bitlen ?a))"
      by (simp only: of_int_le_iff)
    then have 2: "x < (2::real) ^ nat (bitlen ?a)"
      by (simp add: floor_less_iff) linarith
    show ?thesis
      using 1 2 True b by (simp add: exponent_def pow2_def)
  next
    case False
    let ?y = "1 / x"
    let ?n = "nat \<lceil>?y\<rceil>"
    let ?c = "ceillog2 ?n"
    have y: "1 < ?y" using assms False by simp
    then have c2: "2 \<le> \<lceil>?y\<rceil>" by linarith
    have n: "0 < ?n" "real ?n = of_int \<lceil>?y\<rceil>"
      using c2 by linarith+
    have "?n \<le> 2 ^ ?c" by (rule le_two_power_ceillog2)
    then have "real ?n \<le> 2 ^ ?c" by (metis of_nat_le_iff of_nat_numeral of_nat_power)
    then have "?y \<le> 2 ^ ?c" unfolding n(2) by linarith
    then have 1: "1 / 2 ^ ?c \<le> x"
      using assms by (simp add: field_simps)
    have c1: "1 \<le> ?c"
    proof (rule ccontr)
      assume "\<not> 1 \<le> ?c"
      then have "?c = 0" by simp
      then have "?n \<le> 1" using le_two_power_ceillog2 [of ?n] by simp
      then show False using c2 by simp
    qed
    have "?c \<ge> ?c" by simp
    then have "2 ^ ?c < 2 * ?n" using ceillog2_ge_iff [OF n(1), of ?c] by simp
    then have "2 * 2 ^ (?c - 1) < 2 * ?n" using c1 by (cases ?c) simp_all
    then have "2 ^ (?c - 1) < ?n" by simp
    then have "int (2 ^ (?c - 1)) < \<lceil>?y\<rceil>" using c2 by linarith
    then have "int (2 ^ (?c - 1)) \<le> \<lceil>?y\<rceil> - 1" by simp
    then have "real_of_int (int (2 ^ (?c - 1))) \<le> real_of_int (\<lceil>?y\<rceil> - 1)"
      by (simp only: of_int_le_iff)
    then have "(2::real) ^ (?c - 1) < ?y" by simp linarith
    then have 2: "x < 1 / 2 ^ (?c - 1)"
      using assms by (simp add: field_simps)
    have e: "exponent x = - int ?c" using False by (simp add: exponent_def)
    have p1: "pow2 (- int ?c) = 1 / 2 ^ ?c"
      by (simp add: pow2_def)
    have p2: "pow2 (- int ?c + 1) = 1 / 2 ^ (?c - 1)"
    proof (cases "?c = 1")
      case True then show ?thesis by (simp add: pow2_def)
    next
      case False
      then have "\<not> 0 \<le> - int ?c + 1" "nat (- (- int ?c + 1)) = ?c - 1" using c1 by simp_all
      then show ?thesis by (simp add: pow2_def)
    qed
    show ?thesis unfolding e p1 p2 using 1 2 by simp
  qed
  then show "pow2 (exponent x) \<le> x" "x < pow2 (exponent x + 1)" by simp_all
qed

lemma exponent_log:
  assumes "0 < x"
  shows "exponent x = \<lfloor>log 2 x\<rfloor>"
proof -
  have "2 powr of_int (exponent x) \<le> x \<and> x < 2 powr (of_int (exponent x) + 1)"
    using exponent_bounds [OF assms] by (simp add: pow2_powr)
  then have "\<lfloor>log 2 x\<rfloor> = exponent x"
    using assms by (subst floor_log_eq_powr_iff) simp_all
  then show ?thesis by simp
qed

text \<open>
  \<open>round_half_even\<close> is monotone and fixes the integers; the significand of a nonzero
  number lies between \<open>2 ^ 52\<close> and \<open>2 ^ 53\<close>.
\<close>

lemma round_half_even_of_int: "round_half_even (of_int k) = k"
  by (simp add: round_half_even_def)

lemma round_half_even_floor: "\<lfloor>a\<rfloor> \<le> round_half_even a" "round_half_even a \<le> \<lfloor>a\<rfloor> + 1"
  by (simp_all add: round_half_even_def Let_def)

lemma round_half_even_mono:
  assumes "a \<le> b"
  shows "round_half_even a \<le> round_half_even b"
proof (cases "\<lfloor>a\<rfloor> = \<lfloor>b\<rfloor>")
  case True
  have "a - of_int \<lfloor>b\<rfloor> \<le> b - of_int \<lfloor>b\<rfloor>" using assms by simp
  then show ?thesis
    unfolding round_half_even_def Let_def True by auto
next
  case False
  then have "\<lfloor>a\<rfloor> < \<lfloor>b\<rfloor>"
    using floor_mono [OF assms] by simp
  then have "round_half_even a \<le> \<lfloor>b\<rfloor>"
    using round_half_even_floor(2) [of a] by simp
  then show ?thesis
    using round_half_even_floor(1) [of b] by simp
qed

lemma ulp_pos: "0 < ulp x"
  by (simp add: ulp_def pow2_powr)

lemma ulp_abs: "ulp \<bar>x\<bar> = ulp x" and ulp_minus: "ulp (- x) = ulp x"
  by (simp_all add: ulp_def)

lemma ulp_log:
  assumes "x \<noteq> 0"
  shows "ulp x = 2 powr of_int (\<lfloor>log 2 \<bar>x\<bar>\<rfloor> - 52)"
proof -
  have "0 < \<bar>x\<bar>" using assms by simp
  then have "exponent \<bar>x\<bar> = \<lfloor>log 2 \<bar>x\<bar>\<rfloor>" by (rule exponent_log)
  then show ?thesis by (simp add: ulp_def pow2_powr)
qed

lemma ulp_eqI:
  assumes "2 powr of_int e \<le> \<bar>x\<bar>" and "\<bar>x\<bar> < 2 powr of_int (e + 1)"
  shows "ulp x = 2 powr of_int (e - 52)"
proof -
  have "0 < \<bar>x\<bar>"
    using assms(1) powr_gt_zero [of 2 "of_int e"] by linarith
  then have "\<lfloor>log 2 \<bar>x\<bar>\<rfloor> = e"
    using assms by (subst floor_log_eq_powr_iff) simp_all
  moreover have "x \<noteq> 0" using \<open>0 < \<bar>x\<bar>\<close> by simp
  ultimately show ?thesis by (simp add: ulp_log)
qed

lemma ulp_bounds:
  assumes "x \<noteq> 0"
  shows "2 powr of_int \<lfloor>log 2 \<bar>x\<bar>\<rfloor> \<le> \<bar>x\<bar>" "\<bar>x\<bar> < 2 powr of_int (\<lfloor>log 2 \<bar>x\<bar>\<rfloor> + 1)"
proof -
  have "0 < \<bar>x\<bar>" using assms by simp
  then have "2 powr of_int \<lfloor>log 2 \<bar>x\<bar>\<rfloor> \<le> \<bar>x\<bar> \<and> \<bar>x\<bar> < 2 powr (of_int \<lfloor>log 2 \<bar>x\<bar>\<rfloor> + 1)"
    using floor_log_eq_powr_iff [of "\<bar>x\<bar>" 2 "\<lfloor>log 2 \<bar>x\<bar>\<rfloor>"] by simp
  then show "2 powr of_int \<lfloor>log 2 \<bar>x\<bar>\<rfloor> \<le> \<bar>x\<bar>" "\<bar>x\<bar> < 2 powr of_int (\<lfloor>log 2 \<bar>x\<bar>\<rfloor> + 1)"
    by simp_all
qed

lemma powr_52: "(2::real) powr of_int e = 2 ^ 52 * 2 powr of_int (e - 52)"
proof -
  have "(2::real) powr of_int e = 2 powr (52 + of_int (e - 52))" by simp
  also have "\<dots> = 2 powr 52 * 2 powr of_int (e - 52)" by (rule powr_add)
  also have "(2::real) powr 52 = 2 ^ 52" by simp
  finally show ?thesis .
qed

lemma significand_bounds:
  assumes "x \<noteq> 0"
  shows "2 ^ 52 \<le> \<bar>x\<bar> / ulp x" "\<bar>x\<bar> / ulp x < 2 ^ 53"
proof -
  let ?e = "\<lfloor>log 2 \<bar>x\<bar>\<rfloor>"
  have u: "ulp x = 2 powr of_int (?e - 52)" using assms by (simp add: ulp_log)
  have 1: "2 ^ 52 * ulp x \<le> \<bar>x\<bar>"
    using ulp_bounds(1) [OF assms] powr_52 [of ?e] u by simp
  have "(2::real) powr of_int (?e + 1) = 2 ^ 52 * 2 powr of_int (?e + 1 - 52)"
    by (rule powr_52)
  also have "(2::real) powr of_int (?e + 1 - 52) = 2 powr (1 + of_int (?e - 52))" by simp
  also have "\<dots> = 2 * ulp x" unfolding u powr_add by simp
  finally have 2: "\<bar>x\<bar> < 2 ^ 53 * ulp x"
    using ulp_bounds(2) [OF assms] by simp
  show "2 ^ 52 \<le> \<bar>x\<bar> / ulp x"
    using 1 ulp_pos [of x] by (simp add: pos_le_divide_eq)
  show "\<bar>x\<bar> / ulp x < 2 ^ 53"
    using 2 ulp_pos [of x] by (simp add: pos_divide_less_eq)
qed


lemma round_half_even_significand:
  assumes "x \<noteq> 0"
  shows "2 ^ 52 \<le> round_half_even (\<bar>x\<bar> / ulp x)" "round_half_even (\<bar>x\<bar> / ulp x) \<le> 2 ^ 53"
proof -
  have "round_half_even (of_int (2 ^ 52)) \<le> round_half_even (\<bar>x\<bar> / ulp x)"
    by (rule round_half_even_mono) (use significand_bounds(1) [OF assms] in simp)
  then show "2 ^ 52 \<le> round_half_even (\<bar>x\<bar> / ulp x)"
    unfolding round_half_even_of_int .
  have "round_half_even (\<bar>x\<bar> / ulp x) \<le> round_half_even (of_int (2 ^ 53))"
    by (rule round_half_even_mono) (use significand_bounds(2) [OF assms] in simp)
  then show "round_half_even (\<bar>x\<bar> / ulp x) \<le> 2 ^ 53"
    unfolding round_half_even_of_int .
qed

lemma round_double_0: "round_double 0 = 0"
  by (simp add: round_double_def)

lemma round_double_minus: "round_double (- x) = - round_double x"
  by (simp add: round_double_def ulp_minus sgn_minus)

lemma round_double_pos_bounds:
  assumes "0 < x"
  shows "2 powr of_int \<lfloor>log 2 x\<rfloor> \<le> round_double x"
    "round_double x \<le> 2 powr of_int (\<lfloor>log 2 x\<rfloor> + 1)"
proof -
  let ?e = "\<lfloor>log 2 x\<rfloor>"
  let ?k = "round_half_even (\<bar>x\<bar> / ulp x)"
  have x: "x \<noteq> 0" "\<bar>x\<bar> = x" using assms by simp_all
  have u: "ulp x = 2 powr of_int (?e - 52)" using x by (simp add: ulp_log)
  have r: "round_double x = of_int ?k * ulp x"
    using assms by (simp add: round_double_def)
  have "(2::real) ^ 52 \<le> of_int ?k"
    using round_half_even_significand(1) [OF x(1)] by (metis of_int_le_iff of_int_numeral of_int_power)
  then have "2 ^ 52 * ulp x \<le> of_int ?k * ulp x"
    using ulp_pos [of x] by simp
  then show "2 powr of_int ?e \<le> round_double x"
    unfolding r powr_52 [of ?e] u .
  have "of_int ?k \<le> (2::real) ^ 53"
    using round_half_even_significand(2) [OF x(1)] by (metis of_int_le_iff of_int_numeral of_int_power)
  then have "of_int ?k * ulp x \<le> 2 ^ 53 * ulp x"
    using ulp_pos [of x] by simp
  moreover have "(2::real) powr of_int (?e + 1) = 2 ^ 53 * ulp x"
  proof -
    have "(2::real) powr of_int (?e + 1) = 2 ^ 52 * 2 powr (1 + of_int (?e - 52))"
      using powr_52 [of "?e + 1"] by simp
    then show ?thesis unfolding u powr_add by simp
  qed
  ultimately show "round_double x \<le> 2 powr of_int (?e + 1)"
    unfolding r by simp
qed

lemma round_double_pos: "0 < x \<Longrightarrow> 0 < round_double x"
  using round_double_pos_bounds(1) [of x] powr_gt_zero [of 2 "of_int \<lfloor>log 2 x\<rfloor>"]
  by linarith

lemma round_double_mono_pos:
  assumes "0 < x" "x \<le> y"
  shows "round_double x \<le> round_double y"
proof (cases "\<lfloor>log 2 x\<rfloor> = \<lfloor>log 2 y\<rfloor>")
  case True
  have y: "0 < y" using assms by simp
  have u: "ulp x = ulp y" using True assms y by (simp add: ulp_log)
  have "\<bar>x\<bar> / ulp y \<le> \<bar>y\<bar> / ulp y"
    using assms y ulp_pos [of y] by (simp add: divide_right_mono)
  then have "round_half_even (\<bar>x\<bar> / ulp y) \<le> round_half_even (\<bar>y\<bar> / ulp y)"
    by (rule round_half_even_mono)
  then have "real_of_int (round_half_even (\<bar>x\<bar> / ulp y)) * ulp y
      \<le> real_of_int (round_half_even (\<bar>y\<bar> / ulp y)) * ulp y"
    using ulp_pos [of y] by simp
  then show ?thesis
    using assms y by (simp add: round_double_def u)
next
  case False
  have y: "0 < y" using assms by simp
  have "log 2 x \<le> log 2 y" using assms by simp
  then have "\<lfloor>log 2 x\<rfloor> < \<lfloor>log 2 y\<rfloor>"
    using False floor_mono [of "log 2 x" "log 2 y"] by simp
  then have "\<lfloor>log 2 x\<rfloor> + 1 \<le> \<lfloor>log 2 y\<rfloor>" by simp
  then have "(2::real) powr of_int (\<lfloor>log 2 x\<rfloor> + 1) \<le> 2 powr of_int \<lfloor>log 2 y\<rfloor>"
    by (subst powr_le_cancel_iff) simp_all
  then show ?thesis
    using round_double_pos_bounds(2) [OF assms(1)] round_double_pos_bounds(1) [OF y]
    by linarith
qed

lemma round_double_mono:
  assumes "x \<le> y"
  shows "round_double x \<le> round_double y"
proof -
  consider "0 < x" | "x \<le> 0" "0 \<le> y" | "y < 0" using assms by linarith
  then show ?thesis
  proof cases
    case 1
    then show ?thesis using assms by (rule round_double_mono_pos)
  next
    case 2
    have "round_double x \<le> 0"
    proof (cases "x = 0")
      case True then show ?thesis by (simp add: round_double_0)
    next
      case False
      then have "0 < - x" using 2 by simp
      then have "0 < round_double (- x)" by (rule round_double_pos)
      then show ?thesis by (simp add: round_double_minus)
    qed
    moreover have "0 \<le> round_double y"
    proof (cases "y = 0")
      case True then show ?thesis by (simp add: round_double_0)
    next
      case False
      then have "0 < y" using 2 by simp
      then show ?thesis using round_double_pos [of y] by simp
    qed
    ultimately show ?thesis by simp
  next
    case 3
    then have "0 < - y" "- y \<le> - x" using assms by simp_all
    then have "round_double (- y) \<le> round_double (- x)" by (rule round_double_mono_pos)
    then show ?thesis by (simp add: round_double_minus)
  qed
qed

lemma round_double_nonneg: "0 \<le> x \<Longrightarrow> 0 \<le> round_double x"
  using round_double_mono [of 0 x] by (simp add: round_double_0)

lemma round_double_exact:
  assumes "\<bar>x\<bar> / ulp x = of_int k"
  shows "round_double x = x"
proof (cases "x = 0")
  case True then show ?thesis by (simp add: round_double_0)
next
  case False
  have "of_int (round_half_even (\<bar>x\<bar> / ulp x)) * ulp x = \<bar>x\<bar> / ulp x * ulp x"
    unfolding assms round_half_even_of_int ..
  also have "\<dots> = \<bar>x\<bar>" using ulp_pos [of x] by simp
  finally show ?thesis
    using False by (simp add: round_double_def sgn_real_def abs_real_def split: if_splits)
qed

text \<open>
  Every number \<open>k * 2 ^ j\<close> with \<open>\<bar>k\<bar> \<le> 2 ^ 53\<close> is a float: rounding leaves it
  unchanged. So rounding is idempotent and exact on the integers up to \<open>2 ^ 53\<close>.
\<close>

lemma powr_shift: "(2::real) powr of_int (j + int n) = 2 powr of_int j * 2 ^ n"
  by (simp add: powr_add powr_realpow)

lemma round_double_representable:
  assumes x: "x = of_int k * 2 powr of_int j" and k: "\<bar>k\<bar> \<le> 2 ^ 53"
  shows "round_double x = x"
proof (cases "\<bar>k\<bar> = 2 ^ 53")
  case True
  then have "\<bar>real_of_int k\<bar> = 2 ^ 53"
    by (metis of_int_abs of_int_numeral of_int_power)
  then have a: "\<bar>x\<bar> = 2 ^ 53 * 2 powr of_int j"
    unfolding x by (simp add: abs_mult)
  have p: "(2::real) powr of_int (j + 53) = 2 powr of_int j * 2 ^ 53"
    using powr_shift [of j 53] by simp
  have q: "(2::real) powr of_int (j + 53 + 1) = 2 powr of_int j * 2 ^ 54"
    using powr_shift [of j 54] by (simp add: add.commute)
  have u: "ulp x = 2 powr of_int (j + 53 - 52)"
  proof (rule ulp_eqI)
    show "2 powr real_of_int (j + 53) \<le> \<bar>x\<bar>" unfolding a p by simp
    show "\<bar>x\<bar> < 2 powr real_of_int (j + 53 + 1)" unfolding a q by simp
  qed
  have "(2::real) powr of_int (j + 53 - 52) = 2 powr of_int j * 2"
    using powr_shift [of j 1] by (simp add: add.commute)
  then have "\<bar>x\<bar> / ulp x = of_int (2 ^ 52)"
    unfolding u a by simp
  then show ?thesis by (rule round_double_exact)
next
  case False
  show ?thesis
  proof (cases "k = 0")
    case True
    then show ?thesis by (simp add: x round_double_0)
  next
    case k0: False
    then have x0: "x \<noteq> 0" by (simp add: x)
    let ?e = "\<lfloor>log 2 \<bar>x\<bar>\<rfloor>"
    have "\<bar>k\<bar> < 2 ^ 53" using False k by simp
    then have "\<bar>real_of_int k\<bar> < 2 ^ 53"
      by (metis of_int_abs of_int_less_iff of_int_numeral of_int_power)
    then have "\<bar>x\<bar> < 2 powr of_int j * 2 ^ 53"
      unfolding x by (simp add: abs_mult mult.commute)
    then have "\<bar>x\<bar> < 2 powr of_int (j + 53)"
      using powr_shift [of j 53] by simp
    then have "(2::real) powr of_int ?e < 2 powr of_int (j + 53)"
      using ulp_bounds(1) [OF x0] by linarith
    then have "?e < j + 53"
      by (subst (asm) powr_less_cancel_iff) simp_all
    then have "j = ?e - 52 + int (nat (j - (?e - 52)))" by simp
    then obtain n where n: "j = ?e - 52 + int n" ..
    have u: "ulp x = 2 powr of_int (?e - 52)" using x0 by (simp add: ulp_log)
    have ax: "\<bar>x\<bar> = \<bar>of_int k\<bar> * 2 powr of_int j"
      unfolding x by (simp add: abs_mult)
    have pj: "(2::real) powr of_int j = ulp x * 2 ^ n"
      unfolding u using powr_shift [of "?e - 52" n] n by simp
    have "\<bar>x\<bar> / ulp x = \<bar>of_int k\<bar> * (ulp x * 2 ^ n) / ulp x"
      unfolding ax pj ..
    also have "\<dots> = \<bar>of_int k\<bar> * 2 ^ n"
      using ulp_pos [of x] by simp
    also have "\<dots> = of_int (\<bar>k\<bar> * 2 ^ n)" by simp
    finally show ?thesis by (rule round_double_exact)
  qed
qed

lemma round_double_of_int: "\<bar>m\<bar> \<le> 2 ^ 53 \<Longrightarrow> round_double (of_int m) = of_int m"
  using round_double_representable [of "of_int m" m 0] by simp

lemma round_double_idem: "round_double (round_double x) = round_double x"
proof (cases "x = 0")
  case True then show ?thesis by (simp add: round_double_0)
next
  case False
  let ?k = "round_half_even (\<bar>x\<bar> / ulp x)"
  have k: "\<bar>?k\<bar> \<le> 2 ^ 53"
    using round_half_even_significand [OF False] by simp
  show ?thesis
  proof (cases "0 < x")
    case True
    then have "round_double x = of_int ?k * 2 powr of_int (\<lfloor>log 2 \<bar>x\<bar>\<rfloor> - 52)"
      by (simp add: round_double_def ulp_log)
    then show ?thesis using k by (rule round_double_representable)
  next
    case neg: False
    then have "x < 0" using False by simp
    then have "round_double x = of_int (- ?k) * 2 powr of_int (\<lfloor>log 2 \<bar>x\<bar>\<rfloor> - 52)"
      by (simp add: round_double_def ulp_log)
    then show ?thesis
      by (rule round_double_representable [of _ "- ?k"]) (use k in simp)
  qed
qed

lemma round_double_eqI:
  assumes "2 powr of_int e \<le> x" and "x < 2 powr of_int (e + 1)"
    and "round_half_even (x / 2 powr of_int (e - 52)) = k"
  shows "round_double x = of_int k * 2 powr of_int (e - 52)"
proof -
  have x: "0 < x" using assms(1) powr_gt_zero [of 2 "of_int e"] by linarith
  then have a: "\<bar>x\<bar> = x" by simp
  have "ulp x = 2 powr of_int (e - 52)"
    by (rule ulp_eqI) (use assms a in simp_all)
  then show ?thesis
    using x assms(3) by (simp add: round_double_def)
qed



lemma round_double_1: "round_double 1 = 1"
  using round_double_of_int [of 1] by simp

lemma round_double_numeral:
  "(numeral k :: int) \<le> 2 ^ 53 \<Longrightarrow> round_double (numeral k) = numeral k"
  using round_double_of_int [of "numeral k"] by simp

lemma round_double_of_int_ge_1:
  assumes "1 \<le> n"
  shows "1 \<le> round_double (of_int n)"
proof -
  have "round_double 1 \<le> round_double (of_int n)"
    by (rule round_double_mono) (use assms in simp)
  then show ?thesis by (simp add: round_double_1)
qed

text \<open>
  The float nearest to \<open>0.7\<close>, the float nearest to \<open>0.1\<close>, and three times the latter
  rounded (a tie, resolved to the even significand).
\<close>

lemma round_double_7_10: "round_double (7 / 10) = 6305039478318694 / 2 ^ 53"
proof -
  have "round_double (7 / 10) = of_int 6305039478318694 * 2 powr of_int (- 1 - 52)"
    by (rule round_double_eqI) (simp_all add: round_half_even_def powr_minus)
  then show ?thesis by (simp add: powr_minus)
qed

lemma round_double_1_10: "round_double (1 / 10) = 7205759403792794 / 2 ^ 56"
proof -
  have "round_double (1 / 10) = of_int 7205759403792794 * 2 powr of_int (- 4 - 52)"
    by (rule round_double_eqI) (simp_all add: round_half_even_def powr_minus)
  then show ?thesis by (simp add: powr_minus)
qed

lemma round_double_3_tenths:
  "round_double (3 * (7205759403792794 / 2 ^ 56)) = 5404319552844596 / 2 ^ 54"
proof -
  have "round_double (3 * (7205759403792794 / 2 ^ 56))
          = of_int 5404319552844596 * 2 powr of_int (- 2 - 52)"
    by (rule round_double_eqI) (simp_all add: round_half_even_def powr_minus)
  then show ?thesis by (simp add: powr_minus)
qed

subsection \<open>consume\<close>

lemma consume_eq:
  assumes "round_double (now - last_refill s) = time_passed"
    and "round_double (time_passed * refill_rate s) = p"
    and "round_double (float_of (tokens s) + p) = x"
  shows "consume now n s
           = (let r = min_int_float (capacity s) x
              in if of_int n \<le> value_of r
                 then (True, s\<lparr>tokens := sub_int r n, last_refill := now\<rparr>)
                 else (False, s\<lparr>tokens := r, last_refill := now\<rparr>))"
  by (simp add: consume_def Let_def add_float_def assms)

text \<open>
  With \<open>0.7\<close> tokens, a refill rate of \<open>0.1\<close> and three seconds elapsed, the float sum
  is exactly \<open>1.0\<close>: the capacity \<open>1\<close> is reached and the call is granted.
\<close>

lemma consume_rounded_sum:
  "consume 3 1 \<lparr>capacity = 1, refill_rate = round_double (1 / 10),
                tokens = PyFloat (round_double (7 / 10)), last_refill = 0\<rparr>
     = (True, \<lparr>capacity = 1, refill_rate = round_double (1 / 10), tokens = PyInt 0, last_refill = 3\<rparr>)"
proof -
  let ?s = "\<lparr>capacity = 1, refill_rate = round_double (1 / 10),
             tokens = PyFloat (round_double (7 / 10)), last_refill = 0\<rparr>"
  have a: "round_double (3 - last_refill ?s) = 3"
    by (simp add: round_double_numeral)
  have b: "round_double (3 * refill_rate ?s) = 5404319552844596 / 2 ^ 54"
    using round_double_3_tenths by (simp add: round_double_1_10)
  have "float_of (tokens ?s) + 5404319552844596 / 2 ^ 54 = 1"
    by (simp add: round_double_7_10)
  then have c: "round_double (float_of (tokens ?s) + 5404319552844596 / 2 ^ 54) = 1"
    by (simp only: round_double_1)
  show ?thesis
    unfolding consume_eq [OF a b c] by (simp add: min_int_float_def)
qed









text \<open>
  Claim C2, as stated, fails: nothing keeps the refill rate from being negative, and a
  negative refill lowers the count below zero. With \<open>3\<close> tokens of capacity \<open>20\<close>, the
  rate \<open>-1\<close> and ten seconds elapsed, \<open>consume(1)\<close> leaves \<open>-7\<close> tokens.
\<close>

theorem consume_negative_rate_counterexample:
  "value_of (tokens (snd (consume 10 1
      \<lparr>capacity = 20, refill_rate = - 1, tokens = PyFloat 3, last_refill = 0\<rparr>))) = - 7"
  by (simp add: consume_def Let_def add_float_def min_int_float_def round_double_numeral
      round_double_minus)

text \<open>
  Claim C2, amended. A call of \<open>consume(n)\<close> with \<open>n \<ge> 1\<close> leaves the token count at
  most the capacity, whatever the state, the refill rate and the elapsed time: the
  refill is capped. From a state whose token count lies in \<open>[0, capacity]\<close>, when the
  clock reading is not before the last refill and the refill rate is not negative, it
  leaves the token count at least zero: the subtraction happens only when enough tokens
  are there.
\<close>

theorem consume_tokens_in_range:
  assumes "1 \<le> n"
  shows "value_of (tokens (snd (consume now n s))) \<le> of_int (capacity (snd (consume now n s)))
         \<and> (0 \<le> value_of (tokens s) \<and> value_of (tokens s) \<le> of_int (capacity s)
              \<and> last_refill s \<le> now \<and> 0 \<le> refill_rate s
             \<longrightarrow> 0 \<le> value_of (tokens (snd (consume now n s))))"
proof -
  define p where "p = round_double (round_double (now - last_refill s) * refill_rate s)"
  define x where "x = add_float (tokens s) p"
  define r where "r = min_int_float (capacity s) x"
  have xi: "round_double x = x"
    by (simp add: x_def add_float_def round_double_idem)
  have n1: "1 \<le> round_double (of_int n)"
    using assms by (rule round_double_of_int_ge_1)
  have tk: "tokens (snd (consume now n s)) = (if of_int n \<le> value_of r then sub_int r n else r)"
    and cp: "capacity (snd (consume now n s)) = capacity s"
    by (simp_all add: consume_def Let_def r_def x_def p_def)
  have rc: "value_of r \<le> of_int (capacity s)"
    by (simp add: r_def min_int_float_def)
  have sub_le: "value_of (sub_int r n) \<le> value_of r"
  proof (cases "x < of_int (capacity s)")
    case True
    have "round_double (x - round_double (of_int n)) \<le> round_double x"
      by (rule round_double_mono) (use n1 in simp)
    then show ?thesis using True by (simp add: r_def min_int_float_def xi)
  next
    case False
    then show ?thesis using assms by (simp add: r_def min_int_float_def)
  qed
  have upper: "value_of (tokens (snd (consume now n s))) \<le> of_int (capacity (snd (consume now n s)))"
    using rc sub_le by (simp add: tk cp)
  have lower: "0 \<le> value_of (tokens (snd (consume now n s)))"
    if h: "0 \<le> value_of (tokens s) \<and> value_of (tokens s) \<le> of_int (capacity s)
           \<and> last_refill s \<le> now \<and> 0 \<le> refill_rate s"
  proof -
    have "0 \<le> round_double (now - last_refill s)"
      using h by (simp add: round_double_nonneg)
    then have "0 \<le> p"
      unfolding p_def using h by (intro round_double_nonneg) simp
    moreover have "0 \<le> float_of (tokens s)"
      using h by (cases "tokens s") (simp_all add: round_double_nonneg)
    ultimately have x0: "0 \<le> x"
      unfolding x_def add_float_def by (intro round_double_nonneg) simp
    have c0: "0 \<le> capacity s"
    proof -
      have "(0::real) \<le> of_int (capacity s)" using h by linarith
      then show ?thesis by simp
    qed
    have r0: "0 \<le> value_of r"
      using x0 c0 by (simp add: r_def min_int_float_def)
    have "0 \<le> value_of (sub_int r n)" if g: "of_int n \<le> value_of r"
    proof (cases "x < of_int (capacity s)")
      case True
      then have "of_int n \<le> x" using g by (simp add: r_def min_int_float_def)
      then have "round_double (of_int n) \<le> round_double x" by (rule round_double_mono)
      then have "0 \<le> round_double (x - round_double (of_int n))"
        unfolding xi by (intro round_double_nonneg) simp
      then show ?thesis using True by (simp add: r_def min_int_float_def)
    next
      case False
      then show ?thesis using g by (simp add: r_def min_int_float_def)
    qed
    then show ?thesis using r0 by (simp add: tk)
  qed
  show ?thesis
    using upper lower by blast
qed

theorem consume_tokens_in_range_witness:
  "value_of (tokens (snd (consume 100 1 \<lparr>capacity = 20, refill_rate = 1, tokens = PyFloat 3, last_refill = 0\<rparr>)))
     = 19
   \<and> (0::real) \<le> 19 \<and> (19::real) \<le> 20"
  using consume_tokens_in_range [of 1 100 "\<lparr>capacity = 20, refill_rate = 1, tokens = PyFloat 3, last_refill = 0\<rparr>"]
  by (simp add: consume_def Let_def add_float_def min_int_float_def round_double_numeral)

text \<open>
  The lower bound depends on the clock as well: when the clock reading lies before the
  last refill, the refill term is negative and so may be the token count.
\<close>

lemma consume_clock_backwards:
  "value_of (tokens (snd (consume 0 1
      \<lparr>capacity = 20, refill_rate = 1, tokens = PyFloat 3, last_refill = 10\<rparr>))) = - 7"
  by (simp add: consume_def Let_def add_float_def min_int_float_def round_double_numeral
      round_double_minus)

section \<open>Properties of the content validator\<close>

lemma startswith_append: "startswith (p @ s) p"
  by (induction p) simp_all

lemma first_signature_None:
  "\<forall>(t, sg) \<in> set sigs. \<not> startswith b sg \<Longrightarrow> first_signature b sigs = None"
  by (induction sigs) auto

text \<open>
  Claim C5. With the signature table of \<open>validate_image_file\<close>, a byte string of at
  least 16 bytes that starts with \<open>89 50 4E 47 0D 0A 1A 0A\<close> is detected as \<open>png\<close> and one
  that starts with \<open>FF D8 FF\<close> as \<open>jpeg\<close>; with any table, the result is none for a
  byte string shorter than 16 bytes and for one that starts with no signature of the
  table.
\<close>

theorem validate_file_signature_detects:
  "(16 \<le> length b \<and> startswith b [0x89, 0x50, 0x4E, 0x47, 0x0D, 0x0A, 0x1A, 0x0A]
      \<longrightarrow> validate_file_signature b IMAGE_SIGNATURES = Some (py ''png''))
   \<and> (16 \<le> length b \<and> startswith b [0xFF, 0xD8, 0xFF]
      \<longrightarrow> validate_file_signature b IMAGE_SIGNATURES = Some (py ''jpeg''))
   \<and> (length b < 16 \<longrightarrow> validate_file_signature b sigs = None)
   \<and> ((\<forall>(t, sg) \<in> set sigs. \<not> startswith b sg) \<longrightarrow> validate_file_signature b sigs = None)"
proof (intro conjI impI)
  assume "16 \<le> length b \<and> startswith b [0x89, 0x50, 0x4E, 0x47, 0x0D, 0x0A, 0x1A, 0x0A]"
  then show "validate_file_signature b IMAGE_SIGNATURES = Some (py ''png'')"
    by (simp add: validate_file_signature_def IMAGE_SIGNATURES_def PNG_SIGNATURE_def)
next
  assume a: "16 \<le> length b \<and> startswith b [0xFF, 0xD8, 0xFF]"
  then obtain c s where b: "b = c # s" by (cases b) auto
  with a have "c = 0xFF" by simp
  then have "\<not> startswith b PNG_SIGNATURE"
    by (simp add: b PNG_SIGNATURE_def)
  with a show "validate_file_signature b IMAGE_SIGNATURES = Some (py ''jpeg'')"
    by (simp add: validate_file_signature_def IMAGE_SIGNATURES_def JPEG_SIGNATURE_def)
next
  assume "length b < 16"
  then show "validate_file_signature b sigs = None"
    by (simp add: validate_file_signature_def)
next
  assume "\<forall>(t, sg) \<in> set sigs. \<not> startswith b sg"
  then show "validate_file_signature b sigs = None"
    by (simp add: validate_file_signature_def first_signature_None)
qed

theorem validate_file_signature_detects_witness:
  "validate_file_signature [0x89, 0x50, 0x4E, 0x47, 0x0D, 0x0A, 0x1A, 0x0A, 0, 0, 0, 0, 0, 0, 0, 0]
       IMAGE_SIGNATURES = Some (py ''png'')
   \<and> validate_file_signature [0xFF, 0xD8, 0xFF, 0, 0, 0, 0, 0, 0, 0, 0, 0, 0, 0, 0, 0]
       IMAGE_SIGNATURES = Some (py ''jpeg'')
   \<and> validate_file_signature [0x89, 0x50, 0x4E, 0x47, 0x0D, 0x0A, 0x1A, 0x0A] IMAGE_SIGNATURES = None
   \<and> validate_file_signature [0, 0, 0, 0, 0, 0, 0, 0, 0, 0, 0, 0, 0, 0, 0, 0] IMAGE_SIGNATURES = None"
  using validate_file_signature_detects
          [of "[0x89, 0x50, 0x4E, 0x47, 0x0D, 0x0A, 0x1A, 0x0A, 0, 0, 0, 0, 0, 0, 0, 0]" IMAGE_SIGNATURES]
        validate_file_signature_detects
          [of "[0xFF, 0xD8, 0xFF, 0, 0, 0, 0, 0, 0, 0, 0, 0, 0, 0, 0, 0]" IMAGE_SIGNATURES]
        validate_file_signature_detects
          [of "[0x89, 0x50, 0x4E, 0x47, 0x0D, 0x0A, 0x1A, 0x0A]" IMAGE_SIGNATURES]
        validate_file_signature_detects
          [of "[0, 0, 0, 0, 0, 0, 0, 0, 0, 0, 0, 0, 0, 0, 0, 0]" IMAGE_SIGNATURES]
  by (simp add: IMAGE_SIGNATURES_def PNG_SIGNATURE_def JPEG_SIGNATURE_def)

text \<open>
  Claim C3. The checks of the content type, of the PNG signature and of the length raise
  a validation error with field \<open>mask\<close>, but the check of bytes 12 to 15 does not: on a
  33-byte input with content type \<open>image/png\<close> and the PNG signature, whose bytes 12 to
  15 are zero, \<open>validate_mask_file\<close> returns normally; the error it raised inside the
  \<open>try\<close> block is caught and logged as a warning.
\<close>

theorem validate_mask_file_ignores_missing_IHDR:
  "length (PNG_SIGNATURE @ replicate 25 0) = 33
   \<and> slice 12 16 (PNG_SIGNATURE @ replicate 25 0) \<noteq> bytes_lit ''IHDR''
   \<and> validate_mask_file (PNG_SIGNATURE @ replicate 25 0) (py ''mask.png'') (py ''image/png'')
       = Inr [PNG_validation_warning
                (InputValidationError (py ''Invalid PNG structure - IHDR chunk not found'')
                   (Some (py ''mask'')))
                (py ''mask.png'')]"
  by code_simp

text \<open>
  The three checks before the \<open>try\<close> block are the only ones that make
  \<open>validate_mask_file\<close> raise.
\<close>

lemma validate_mask_file_early_checks:
  "(ctype \<noteq> py ''image/png'' \<or> \<not> startswith b PNG_SIGNATURE \<or> length b < 33)
   \<longleftrightarrow> (\<exists>d. validate_mask_file b fname ctype
              = Inl (InputValidationError d (Some (py ''mask''))))"
  by (auto simp add: validate_mask_file_def Let_def)

subsection \<open>strip\<close>

lemma dropWhile_keeps: "x \<in> set xs \<Longrightarrow> \<not> P x \<Longrightarrow> x \<in> set (dropWhile P xs)"
  by (induction xs) auto

lemma strip_keeps: "c \<in> set s \<Longrightarrow> \<not> isspace c \<Longrightarrow> c \<in> set (strip s)"
  by (simp add: strip_def dropWhile_keeps)

lemma set_strip: "set (strip s) \<subseteq> set s"
proof
  fix x assume "x \<in> set (strip s)"
  then have "x \<in> set (dropWhile isspace (rev (dropWhile isspace s)))"
    by (simp add: strip_def)
  then have "x \<in> set (rev (dropWhile isspace s))"
    by (rule set_dropWhileD)
  then have "x \<in> set (dropWhile isspace s)"
    by simp
  then show "x \<in> set s"
    by (rule set_dropWhileD)
qed

lemma length_strip: "length (strip s) \<le> length s"
proof -
  have "length (strip s) = length (dropWhile isspace (rev (dropWhile isspace s)))"
    by (simp add: strip_def)
  also have "\<dots> \<le> length (rev (dropWhile isspace s))"
    by (rule length_dropWhile_le)
  also have "\<dots> = length (dropWhile isspace s)"
    by simp
  also have "\<dots> \<le> length s"
    by (rule length_dropWhile_le)
  finally show ?thesis .
qed

lemma strip_Nil_iff: "strip s = [] \<longleftrightarrow> list_all isspace s"
proof
  assume "strip s = []"
  then have a: "\<forall>x\<in>set (dropWhile isspace s). isspace x"
    by (simp add: strip_def dropWhile_eq_Nil_conv)
  have "isspace x" if "x \<in> set s" for x
  proof (rule ccontr)
    assume "\<not> isspace x"
    with that have "x \<in> set (dropWhile isspace s)" by (rule dropWhile_keeps)
    with a have "isspace x" by blast
    with \<open>\<not> isspace x\<close> show False by blast
  qed
  then show "list_all isspace s"
    by (simp add: list_all_iff)
next
  assume "list_all isspace s"
  then have d: "dropWhile isspace s = []"
    by (simp add: list_all_iff)
  show "strip s = []"
    unfolding strip_def d by simp
qed

lemma dropWhile_rev_dropWhile_rev:
  assumes "t = [] \<or> \<not> P (hd t)"
  shows "dropWhile P (rev (dropWhile P (rev t))) = rev (dropWhile P (rev t))"
proof (cases "dropWhile P (rev t)" rule: rev_cases)
  case Nil
  show ?thesis unfolding Nil by simp
next
  case (snoc ys y)
  have "rev t = takeWhile P (rev t) @ dropWhile P (rev t)" by simp
  then have "rev t = takeWhile P (rev t) @ ys @ [y]" unfolding snoc .
  then have "rev (rev t) = rev (takeWhile P (rev t) @ ys @ [y])" by (rule arg_cong)
  then have t: "t = y # rev ys @ rev (takeWhile P (rev t))" by simp
  then have "t \<noteq> []" and "hd t = y"
    by (cases t; simp)+
  with assms have "\<not> P y" by simp
  then show ?thesis unfolding snoc by simp
qed

lemma strip_idem: "strip (strip s) = strip s"
proof -
  have h: "dropWhile isspace s = [] \<or> \<not> isspace (hd (dropWhile isspace s))"
    using hd_dropWhile [of isspace s] by blast
  have a: "dropWhile isspace (strip s) = strip s"
    unfolding strip_def by (rule dropWhile_rev_dropWhile_rev [of "dropWhile isspace s" isspace, OF h])
  have "strip (strip s) = rev (dropWhile isspace (rev (dropWhile isspace (strip s))))"
    by (rule strip_def)
  also have "\<dots> = rev (dropWhile isspace (rev (strip s)))"
    unfolding a ..
  also have "\<dots> = rev (dropWhile isspace (dropWhile isspace (rev (dropWhile isspace s))))"
    unfolding strip_def rev_rev_ident ..
  also have "\<dots> = strip s"
    unfolding strip_def dropWhile_idem ..
  finally show ?thesis .
qed

subsection \<open>validate_prompt\<close>

text \<open>
  Claim C4, as stated, fails: the control characters are searched in the trimmed prompt,
  and \<open>strip\<close> removes leading and trailing \<open>0B\<close>, \<open>0C\<close> and \<open>1C\<close> to \<open>1F\<close> as white
  space. The input \<open>a\<close> followed by \<open>0B\<close> contains a control character of the set and is
  accepted.
\<close>

theorem validate_prompt_trailing_control_counterexample:
  "list_ex prompt_control_char [0x61, 0x0B] \<and> validate_prompt [0x61, 0x0B] = Inr ([], [0x61])"
  by (simp add: validate_prompt_def strip_def isspace_def prompt_control_char_def Let_def
        suspicious_patterns_def re_search_ignorecase_def re_fold_def py_def)

lemma validate_prompt_Inl_iff:
  "isl (validate_prompt p)
     \<longleftrightarrow> list_all isspace p \<or> 500 < length (strip p) \<or> list_ex prompt_control_char (strip p)"
proof -
  have "p = [] \<or> strip p = [] \<longleftrightarrow> list_all isspace p"
    using strip_Nil_iff [of p] by auto
  then show ?thesis
    unfolding validate_prompt_def Let_def by (simp split: if_splits)
qed

lemma validate_prompt_Inl_field:
  "validate_prompt p = Inl e \<Longrightarrow> field e = Some (py ''prompt'') \<and> status_code e = 422"
  unfolding validate_prompt_def Let_def by (auto split: if_splits)

lemma validate_prompt_Inr:
  "validate_prompt p = Inr (w, r) \<Longrightarrow>
     r = strip p \<and> strip p \<noteq> [] \<and> length (strip p) \<le> 500
     \<and> \<not> list_ex prompt_control_char (strip p)
     \<and> w = (case find (\<lambda>pattern. re_search_ignorecase pattern (strip p)) suspicious_patterns of
              Some pattern \<Rightarrow> [Suspicious_pattern_in_prompt pattern (take 50 (strip p))]
            | None \<Rightarrow> [])"
  unfolding validate_prompt_def Let_def by (auto split: if_splits)

lemma validate_prompt_accepts:
  assumes "strip p \<noteq> []" and "length (strip p) \<le> 500"
    and "\<not> list_ex prompt_control_char (strip p)"
  shows "validate_prompt p
           = Inr ((case find (\<lambda>pattern. re_search_ignorecase pattern (strip p)) suspicious_patterns of
                     Some pattern \<Rightarrow> [Suspicious_pattern_in_prompt pattern (take 50 (strip p))]
                   | None \<Rightarrow> []),
                  strip p)"
proof -
  have "p \<noteq> []" using assms(1) by (auto simp add: strip_def)
  then show ?thesis
    using assms unfolding validate_prompt_def Let_def by simp
qed

text \<open>
  Claim C4, amended. \<open>validate_prompt\<close> raises iff the input is empty or white space
  only, or its trimmed form is longer than 500 characters, or its trimmed form contains
  a control character of \<open>00-08, 0B, 0C, 0E-1F, 7F\<close>; the error has field \<open>prompt\<close> and
  status 422. It rejects the empty string and every string containing \<open>07\<close>, and
  accepts every string of at most 500 characters that is not white space only and has no
  control character of the set. The suspicious patterns are no part of the condition:
  they are logged only.
\<close>

theorem validate_prompt_rejects_iff:
  "(isl (validate_prompt p)
      \<longleftrightarrow> list_all isspace p \<or> 500 < length (strip p) \<or> list_ex prompt_control_char (strip p))
   \<and> (\<forall>e. validate_prompt p = Inl e \<longrightarrow> field e = Some (py ''prompt'') \<and> status_code e = 422)
   \<and> isl (validate_prompt [])
   \<and> (0x07 \<in> set p \<longrightarrow> isl (validate_prompt p))
   \<and> (length p \<le> 500 \<and> \<not> list_all isspace p \<and> \<not> list_ex prompt_control_char p
        \<longrightarrow> (\<exists>w. validate_prompt p = Inr (w, strip p)))"
proof (intro conjI impI allI)
  show "isl (validate_prompt p)
      \<longleftrightarrow> list_all isspace p \<or> 500 < length (strip p) \<or> list_ex prompt_control_char (strip p)"
    by (rule validate_prompt_Inl_iff)
next
  fix e assume "validate_prompt p = Inl e"
  then show "field e = Some (py ''prompt'')" and "status_code e = 422"
    using validate_prompt_Inl_field by blast+
next
  show "isl (validate_prompt [])"
    by (simp add: validate_prompt_def)
next
  assume a: "0x07 \<in> set p"
  have "\<not> isspace 0x07" by (simp add: isspace_def)
  with a have "0x07 \<in> set (strip p)" by (rule strip_keeps)
  moreover have "prompt_control_char 0x07" by (simp add: prompt_control_char_def)
  ultimately have "list_ex prompt_control_char (strip p)"
    unfolding list_ex_iff by blast
  then show "isl (validate_prompt p)"
    using validate_prompt_Inl_iff by blast
next
  assume a: "length p \<le> 500 \<and> \<not> list_all isspace p \<and> \<not> list_ex prompt_control_char p"
  then have 1: "strip p \<noteq> []" using strip_Nil_iff by blast
  have 2: "length (strip p) \<le> 500" using a length_strip [of p] by simp
  have 3: "\<not> list_ex prompt_control_char (strip p)"
    using a set_strip [of p] unfolding list_ex_iff by blast
  show "\<exists>w. validate_prompt p = Inr (w, strip p)"
    using validate_prompt_accepts [OF 1 2 3] by blast
qed

theorem validate_prompt_rejects_iff_witness:
  "isl (validate_prompt [0x61, 0x07])
   \<and> field (projl (validate_prompt [0x61, 0x07])) = Some (py ''prompt'')
   \<and> validate_prompt (py '' <script '')
       = Inr ([Suspicious_pattern_in_prompt (py ''<script'') (py ''<script'')], py ''<script'')"
proof -
  have a: "validate_prompt (py '' <script '')
       = Inr ([Suspicious_pattern_in_prompt (py ''<script'') (py ''<script'')], py ''<script'')"
    by (simp add: validate_prompt_def strip_def isspace_def prompt_control_char_def Let_def
        suspicious_patterns_def re_search_ignorecase_def re_fold_def py_def)
  have b: "0x07 \<in> set [0x61, 0x07::nat]" by simp
  have c: "isl (validate_prompt [0x61, 0x07])"
    using validate_prompt_rejects_iff [of "[0x61, 0x07]"] b by blast
  then obtain e where e: "validate_prompt [0x61, 0x07] = Inl e"
    unfolding isl_def by blast
  then have "field e = Some (py ''prompt'')"
    using validate_prompt_rejects_iff [of "[0x61, 0x07]"] by blast
  then show ?thesis using a c e by simp
qed

text \<open>
  Claim C9. When \<open>validate_prompt\<close> succeeds on \<open>p\<close> with result \<open>r\<close>, then \<open>r\<close> is
  the trimmed \<open>p\<close>, and \<open>validate_prompt\<close> succeeds on \<open>r\<close> and returns \<open>r\<close> again
  (with the same warnings logged).
\<close>

theorem validate_prompt_idempotent:
  assumes "validate_prompt p = Inr (w, r)"
  shows "r = strip p \<and> validate_prompt r = Inr (w, r)"
proof -
  note h = validate_prompt_Inr [OF assms]
  have r: "r = strip p" using h by blast
  have s: "strip r = strip p" unfolding r by (rule strip_idem)
  have 1: "strip r \<noteq> []" unfolding s using h by blast
  have 2: "length (strip r) \<le> 500" unfolding s using h by blast
  have 3: "\<not> list_ex prompt_control_char (strip r)" unfolding s using h by blast
  have w: "w = (case find (\<lambda>pattern. re_search_ignorecase pattern (strip p)) suspicious_patterns of
              Some pattern \<Rightarrow> [Suspicious_pattern_in_prompt pattern (take 50 (strip p))]
            | None \<Rightarrow> [])"
    using h by blast
  have "validate_prompt r = Inr (w, strip p)"
    using validate_prompt_accepts [OF 1 2 3] unfolding s w [symmetric] .
  then show ?thesis
    using r by simp
qed

theorem validate_prompt_idempotent_witness:
  "validate_prompt (py ''  a cat  '') = Inr ([], py ''a cat'')
   \<and> validate_prompt (py ''a cat'') = Inr ([], py ''a cat'')"
proof -
  have a: "validate_prompt (py ''  a cat  '') = Inr ([], py ''a cat'')"
    by (simp add: validate_prompt_def strip_def isspace_def prompt_control_char_def Let_def
        suspicious_patterns_def re_search_ignorecase_def re_fold_def py_def)
  have "validate_prompt (py ''a cat'') = Inr ([], py ''a cat'')"
    using validate_prompt_idempotent [OF a] by blast
  with a show ?thesis by blast
qed

subsection \<open>sanitize_filename\<close>

lemma endswith_append: "endswith (s @ p) p"
  by (simp add: endswith_def startswith_append)

lemma clean_filename_chars:
  "c \<in> set (clean_filename f) \<Longrightarrow> \<not> dangerous_char c \<and> \<not> control_char c"
  by (auto simp add: clean_filename_def dangerous_char_def)

lemma splitext_append: "splitext p = (name, ext) \<Longrightarrow> name @ ext = p"
  by (auto simp add: splitext_def Let_def split: if_splits)

lemma set_slice_to: "set (slice_to k s) \<subseteq> set s"
  by (auto simp add: slice_to_def dest: in_set_takeD)

lemma set_limit_length: "set (limit_length x) \<subseteq> set x"
proof (cases "255 < length x")
  case True
  obtain name ext where s: "splitext x = (name, ext)" by (cases "splitext x")
  have "name @ ext = x" using s by (rule splitext_append)
  then have "set name \<subseteq> set x" and "set ext \<subseteq> set x" by auto
  then show ?thesis
    using True s set_slice_to [of "255 - int (length ext)" name]
    by (auto simp add: limit_length_def)
next
  case False
  then show ?thesis by (simp add: limit_length_def)
qed

lemma length_limit_length:
  assumes "length (snd (splitext x)) \<le> 255"
  shows "length (limit_length x) \<le> 255"
proof (cases "255 < length x")
  case True
  obtain name ext where s: "splitext x = (name, ext)" by (cases "splitext x")
  have e: "length ext \<le> 255" using assms s by simp
  then have "length (slice_to (255 - int (length ext)) name) \<le> 255 - length ext"
    by (simp add: slice_to_def)
  then show ?thesis
    using True s e by (simp add: limit_length_def)
next
  case False
  then show ?thesis by (simp add: limit_length_def)
qed

lemma endswith_limit_length:
  "255 < length x \<Longrightarrow> endswith (limit_length x) (snd (splitext x))"
  by (cases "splitext x") (simp add: limit_length_def endswith_append)

lemma limit_length_short: "length x \<le> 255 \<Longrightarrow> limit_length x = x"
  by (simp add: limit_length_def)

lemma placeholder_chars:
  "c \<in> set (py ''unnamed_file'') \<Longrightarrow> \<not> dangerous_char c \<and> \<not> control_char c"
  by (auto simp add: py_def dangerous_char_def control_char_def)

lemma sanitize_filename_cases:
  "sanitize_filename f = py ''unnamed_file''
   \<or> (sanitize_filename f = limit_length (clean_filename f)
      \<and> limit_length (clean_filename f) \<notin> {[], py ''.'', py ''..''})"
  by (auto simp add: sanitize_filename_def Let_def)

lemma length_limit_length_long:
  assumes "255 < length x"
  shows "255 \<le> length (limit_length x)"
proof -
  obtain name ext where s: "splitext x = (name, ext)" by (cases "splitext x")
  have x: "name @ ext = x" using s by (rule splitext_append)
  then have l: "255 < length name + length ext" using assms by auto
  show ?thesis
  proof (cases "length ext \<le> 255")
    case True
    then have "slice_to (255 - int (length ext)) name = take (255 - length ext) name"
      by (simp add: slice_to_def nat_diff_distrib')
    then show ?thesis
      using assms s l True by (simp add: limit_length_def)
  next
    case False
    then show ?thesis
      using assms s by (simp add: limit_length_def)
  qed
qed

lemma rfind_absent: "c \<notin> set s \<Longrightarrow> rfind s c = - 1"
  by (simp add: rfind_def)

lemma rfind_last: "c \<notin> set ext \<Longrightarrow> rfind (name @ c # ext) c = int (length name)"
proof -
  assume a: "c \<notin> set ext"
  have "x \<noteq> c" if "x \<in> set (rev ext)" for x
    using a that by auto
  then have "takeWhile (\<lambda>x. x \<noteq> c) (rev ext @ c # rev name)
               = rev ext @ takeWhile (\<lambda>x. x \<noteq> c) (c # rev name)"
    by (rule takeWhile_append2)
  then have "takeWhile (\<lambda>x. x \<noteq> c) (rev ext @ c # rev name) = rev ext"
    by simp
  then show ?thesis
    by (simp add: rfind_def)
qed

lemma splitext_simple:
  assumes "0x2F \<notin> set name" and "0x2F \<notin> set ext" and "0x2E \<notin> set ext"
    and "list_ex (\<lambda>c. c \<noteq> 0x2E) name"
  shows "splitext (name @ 0x2E # ext) = (name, 0x2E # ext)"
proof -
  have 1: "rfind (name @ 0x2E # ext) 0x2F = - 1"
    using assms by (intro rfind_absent) simp
  have 2: "rfind (name @ 0x2E # ext) 0x2E = int (length name)"
    using assms by (intro rfind_last) simp
  show ?thesis
    using assms(4) unfolding splitext_def 1 2 Let_def by (simp add: slice_def)
qed

lemma clean_filename_id:
  assumes "\<forall>c\<in>set x. \<not> dangerous_char c \<and> \<not> control_char c"
  shows "clean_filename x = x"
proof -
  have "\<not> dangerous_char c" if "c \<in> set x" for c using assms that by blast
  moreover have "dangerous_char 0x2F" by (simp add: dangerous_char_def)
  ultimately have "0x2F \<notin> set x" by blast
  then have b: "basename x = x"
    by (simp add: basename_def rfind_absent)
  have m: "map (\<lambda>c. if dangerous_char c then 0x5F else c) x = x"
    using assms by (simp add: map_idI)
  show ?thesis
    unfolding clean_filename_def b m using assms by simp
qed

lemma sanitize_filename_passwd: "sanitize_filename (py ''../../etc/passwd'') = py ''passwd''"
  by (simp add: sanitize_filename_def clean_filename_def limit_length_def basename_def rfind_def
      dangerous_char_def control_char_def py_def Let_def)

lemma sanitize_filename_long:
  assumes "255 < length (clean_filename f)"
  shows "sanitize_filename f = limit_length (clean_filename f)"
proof -
  have "clean_filename [] = []" by (simp add: clean_filename_def basename_def)
  then have f: "f \<noteq> []" using assms by auto
  have "255 \<le> length (limit_length (clean_filename f))"
    using assms by (rule length_limit_length_long)
  then have "limit_length (clean_filename f) \<notin> {[], py ''.'', py ''..''}"
    by (auto simp add: py_def)
  then show ?thesis
    using f by (simp add: sanitize_filename_def Let_def)
qed

text \<open>
  What holds for every input: the result of \<open>sanitize_filename\<close> is not empty and
  is neither \<open>.\<close> nor \<open>..\<close>; it contains no slash, no backslash, none of the characters
  \<open>< > : " | ? *\<close> and no code point of \<open>00-1f\<close> or \<open>7f-9f\<close>. When the extension of the
  cleaned name (as \<open>splitext\<close> gives it) has at most 255 characters, the result has at
  most 255 characters; a cleaned name longer than 255 characters keeps its extension.
  The result is the placeholder \<open>unnamed_file\<close> when the input is empty or its cleaned
  name is empty, \<open>.\<close> or \<open>..\<close>, and it is the cleaned name (base name, the nine
  characters replaced by underscore, control characters removed) when that has at most
  255 characters and is none of these. On \<open>../../etc/passwd\<close> the result is \<open>passwd\<close>.
\<close>

theorem sanitize_filename_safe:
  "sanitize_filename f \<noteq> [] \<and> sanitize_filename f \<noteq> py ''.'' \<and> sanitize_filename f \<noteq> py ''..''
   \<and> (\<forall>c\<in>set (sanitize_filename f). \<not> dangerous_char c \<and> \<not> control_char c)
   \<and> 0x2F \<notin> set (sanitize_filename f) \<and> 0x5C \<notin> set (sanitize_filename f)
   \<and> (length (snd (splitext (clean_filename f))) \<le> 255 \<longrightarrow> length (sanitize_filename f) \<le> 255)
   \<and> (255 < length (clean_filename f)
        \<longrightarrow> endswith (sanitize_filename f) (snd (splitext (clean_filename f))))
   \<and> (f = [] \<or> clean_filename f \<in> {[], py ''.'', py ''..''}
        \<longrightarrow> sanitize_filename f = py ''unnamed_file'')
   \<and> (f \<noteq> [] \<and> length (clean_filename f) \<le> 255 \<and> clean_filename f \<notin> {[], py ''.'', py ''..''}
        \<longrightarrow> sanitize_filename f = clean_filename f)
   \<and> sanitize_filename (py ''../../etc/passwd'') = py ''passwd''"
proof -
  note c = sanitize_filename_cases [of f]
  have ne: "sanitize_filename f \<noteq> []" "sanitize_filename f \<noteq> py ''.''"
    "sanitize_filename f \<noteq> py ''..''"
    using c by (auto simp add: py_def)
  have chars: "\<not> dangerous_char c \<and> \<not> control_char c" if "c \<in> set (sanitize_filename f)" for c
  proof (cases "sanitize_filename f = py ''unnamed_file''")
    case True
    then show ?thesis using that placeholder_chars by simp
  next
    case False
    then have "sanitize_filename f = limit_length (clean_filename f)" using c by blast
    then have "c \<in> set (clean_filename f)"
      using that set_limit_length [of "clean_filename f"] by auto
    then show ?thesis by (rule clean_filename_chars)
  qed
  have d: "dangerous_char 0x2F" "dangerous_char 0x5C"
    by (simp_all add: dangerous_char_def)
  have sep: "0x2F \<notin> set (sanitize_filename f)" "0x5C \<notin> set (sanitize_filename f)"
    using chars d by blast+
  have len: "length (sanitize_filename f) \<le> 255"
    if "length (snd (splitext (clean_filename f))) \<le> 255"
  proof (cases "sanitize_filename f = py ''unnamed_file''")
    case True
    then show ?thesis by (simp add: py_def)
  next
    case False
    then have "sanitize_filename f = limit_length (clean_filename f)" using c by blast
    then show ?thesis using length_limit_length [OF that] by simp
  qed
  have ext: "endswith (sanitize_filename f) (snd (splitext (clean_filename f)))"
    if "255 < length (clean_filename f)"
    using that by (simp add: sanitize_filename_long endswith_limit_length)
  have ph: "sanitize_filename f = py ''unnamed_file''"
    if "f = [] \<or> clean_filename f \<in> {[], py ''.'', py ''..''}"
  proof (cases "f = []")
    case True
    then show ?thesis by (simp add: sanitize_filename_def)
  next
    case False
    then have m: "clean_filename f \<in> {[], py ''.'', py ''..''}" using that by blast
    then have "length (clean_filename f) \<le> 255" by (auto simp add: py_def)
    then have "limit_length (clean_filename f) = clean_filename f" by (rule limit_length_short)
    then show ?thesis using m by (auto simp add: sanitize_filename_def Let_def)
  qed
  have keep: "sanitize_filename f = clean_filename f"
    if "f \<noteq> [] \<and> length (clean_filename f) \<le> 255 \<and> clean_filename f \<notin> {[], py ''.'', py ''..''}"
  proof -
    have "limit_length (clean_filename f) = clean_filename f"
      using that by (intro limit_length_short) simp
    then show ?thesis using that by (auto simp add: sanitize_filename_def Let_def)
  qed
  show ?thesis
    using ne chars sep len ext ph keep sanitize_filename_passwd by blast
qed

lemma clean_filename_long_name:
  "clean_filename (replicate 300 0x61 @ 0x2E # py ''txt'') = replicate 300 0x61 @ 0x2E # py ''txt''"
  by (rule clean_filename_id) (auto simp add: py_def dangerous_char_def control_char_def)

lemma splitext_long_name:
  "splitext (replicate 300 0x61 @ 0x2E # py ''txt'') = (replicate 300 0x61, 0x2E # py ''txt'')"
  by (rule splitext_simple) (auto simp add: py_def list_ex_iff)

theorem sanitize_filename_safe_witness:
  "length (sanitize_filename (replicate 300 0x61 @ 0x2E # py ''txt'')) \<le> 255
   \<and> endswith (sanitize_filename (replicate 300 0x61 @ 0x2E # py ''txt'')) (0x2E # py ''txt'')
   \<and> sanitize_filename [] = py ''unnamed_file''
   \<and> sanitize_filename (py ''a<b>.txt'') = py ''a_b_.txt''"
proof -
  let ?x = "replicate 300 0x61 @ 0x2E # py ''txt''"
  have 1: "length (snd (splitext (clean_filename ?x))) \<le> 255"
    unfolding clean_filename_long_name splitext_long_name by (simp add: py_def)
  have 2: "255 < length (clean_filename ?x)"
    unfolding clean_filename_long_name by simp
  have a: "length (sanitize_filename ?x) \<le> 255"
    using sanitize_filename_safe [of ?x] 1 by blast
  have "endswith (sanitize_filename ?x) (snd (splitext (clean_filename ?x)))"
    using sanitize_filename_safe [of ?x] 2 by blast
  then have b: "endswith (sanitize_filename ?x) (0x2E # py ''txt'')"
    unfolding clean_filename_long_name splitext_long_name by simp
  have c: "sanitize_filename [] = py ''unnamed_file''"
    using sanitize_filename_safe [of "[]"] by blast
  have 3: "clean_filename (py ''a<b>.txt'') = py ''a_b_.txt''"
    by (simp add: clean_filename_def basename_def rfind_def dangerous_char_def control_char_def py_def)
  have 4: "py ''a<b>.txt'' \<noteq> [] \<and> length (clean_filename (py ''a<b>.txt'')) \<le> 255
          \<and> clean_filename (py ''a<b>.txt'') \<notin> {[], py ''.'', py ''..''}"
    unfolding 3 by (simp add: py_def)
  have "sanitize_filename (py ''a<b>.txt'') = clean_filename (py ''a<b>.txt'')"
    using sanitize_filename_safe [of "py ''a<b>.txt''"] 4 by blast
  then have d: "sanitize_filename (py ''a<b>.txt'') = py ''a_b_.txt''"
    unfolding 3 .
  show ?thesis using a b c d by blast
qed

text \<open>
  Claim C7. The code departs from the claim, and from its own comments, on two inputs.
  Under the comment \<open>Ensure it's not empty or just dots\<close> the placeholder is substituted
  for the empty name and for the names \<open>.\<close> and \<open>..\<close> only: a name of three dots
  consists only of dots and is returned as it is. Under the comment \<open>Limit length\<close> the
  slice bound \<open>255 - len(ext)\<close> is negative when the extension is longer than 255
  characters, the slice then drops characters from the end of the base name only, and
  the result is at least as long as the extension: \<open>a.\<close> followed by 300 letters \<open>b\<close>
  (302 characters) gives the 301 characters of the extension.
\<close>

theorem sanitize_filename_keeps_dots_and_long_extension:
  "sanitize_filename (py ''...'') = py ''...''
   \<and> sanitize_filename (0x61 # 0x2E # replicate 300 0x62) = 0x2E # replicate 300 0x62
   \<and> length (sanitize_filename (0x61 # 0x2E # replicate 300 0x62)) = 301"
proof -
  let ?x = "0x61 # 0x2E # replicate 300 0x62"
  have d: "sanitize_filename (py ''...'') = py ''...''"
    by (simp add: sanitize_filename_def clean_filename_def limit_length_def basename_def rfind_def
        dangerous_char_def control_char_def py_def Let_def)
  have c: "clean_filename ?x = ?x"
    by (rule clean_filename_id) (auto simp add: dangerous_char_def control_char_def)
  have "splitext ([0x61] @ 0x2E # replicate 300 0x62) = ([0x61], 0x2E # replicate 300 0x62)"
    by (rule splitext_simple) auto
  then have s: "splitext ?x = ([0x61], 0x2E # replicate 300 0x62)"
    by simp
  have l: "limit_length ?x = 0x2E # replicate 300 0x62"
    by (simp add: limit_length_def s slice_to_def)
  have "255 < length (clean_filename ?x)" unfolding c by simp
  then have "sanitize_filename ?x = limit_length (clean_filename ?x)"
    by (rule sanitize_filename_long)
  then have e: "sanitize_filename ?x = 0x2E # replicate 300 0x62"
    unfolding c l .
  have "length (sanitize_filename ?x) = 301"
    unfolding e by simp
  then show ?thesis using d e by blast
qed

section \<open>Properties of the inpaint client\<close>





section \<open>Properties of the validation pipeline and of the handler\<close>

subsection \<open>What the stages raise\<close>

lemma validate_image_file_raises:
  "validate_image_file b fname ctype = Inl ex \<Longrightarrow> \<exists>d f. ex = InputValidationError d f"
  unfolding validate_image_file_def Let_def
  by (auto split: if_splits option.splits)

lemma validate_mask_file_raises:
  "validate_mask_file b fname ctype = Inl ex \<Longrightarrow> \<exists>d f. ex = InputValidationError d f"
  unfolding validate_mask_file_def Let_def
  by (auto split: if_splits)

lemma validate_image_dimensions_raises:
  "validate_image_dimensions e v b = Inl ex \<Longrightarrow> \<exists>d f. ex = InputValidationError d f"
  unfolding validate_image_dimensions_def
  by (auto split: if_splits sum.splits)

lemma validate_mask_content_raises:
  "validate_mask_content e v b = Inl ex \<Longrightarrow> \<exists>d f. ex = InputValidationError d f"
  unfolding validate_mask_content_def
  by (auto split: if_splits sum.splits)

lemma validate_uploaded_image_raises:
  "validate_uploaded_image e v u = Inl ex \<Longrightarrow> \<exists>d f. ex = InputValidationError d f"
  unfolding validate_uploaded_image_def
  by (auto split: if_splits sum.splits option.splits
      dest: validate_image_file_raises validate_image_dimensions_raises)

lemma validate_uploaded_mask_raises:
  "validate_uploaded_mask e v u = Inl ex \<Longrightarrow> \<exists>d f. ex = InputValidationError d f"
  unfolding validate_uploaded_mask_def
  by (auto split: if_splits sum.splits option.splits
      dest: validate_mask_file_raises validate_mask_content_raises)

lemma validate_prompt_raises:
  "validate_prompt p = Inl ex \<Longrightarrow> \<exists>d f. ex = InputValidationError d f"
  unfolding validate_prompt_def Let_def
  by (auto split: if_splits)

lemma validate_prompt_text_raises:
  "validate_prompt_text p = Inl ex \<Longrightarrow> \<exists>d f. ex = InputValidationError d f"
  unfolding validate_prompt_text_def
  by (auto split: sum.splits dest: validate_prompt_raises)

lemma validate_numeric_parameter_raises:
  "validate_numeric_parameter sf x n lo hi = Inl ex \<Longrightarrow> \<exists>d f. ex = InputValidationError d f"
  unfolding validate_numeric_parameter_def
  by (auto split: if_splits)

lemma validate_parameters_raises:
  "validate_parameters e sd st gs = Inl ex \<Longrightarrow> \<exists>d f. ex = InputValidationError d f"
  unfolding validate_parameters_def
  by (auto split: if_splits sum.splits option.splits dest: validate_numeric_parameter_raises)

lemma validation_stages_raises:
  "validation_stages e v im ms p sd st gs = Inl ex \<Longrightarrow> \<exists>d f. ex = InputValidationError d f"
  unfolding validation_stages_def
  by (auto split: sum.splits prod.splits
      dest: validate_uploaded_image_raises validate_uploaded_mask_raises
        validate_prompt_text_raises validate_parameters_raises)

lemma validate_inpaint_request_Inl:
  assumes "snd (validate_inpaint_request e v im ms p sd st gs) = Inl ex"
  shows "(\<exists>d f. ex = InputValidationError d f)
         \<and> fst (validate_inpaint_request e v im ms p sd st gs)
             = [Mask_operation_metric (py ''validation'') (py ''error'')]"
proof (cases "validation_stages e v im ms p sd st gs")
  case (Inl x)
  then obtain d f where x: "x = InputValidationError d f"
    using validation_stages_raises by blast
  have r: "validate_inpaint_request e v im ms p sd st gs
             = ([Mask_operation_metric (py ''validation'') (py ''error'')],
                Inl (InputValidationError d f))"
    unfolding validate_inpaint_request_def Inl x by simp
  have "ex = InputValidationError d f"
    using assms unfolding r by simp
  then show ?thesis
    unfolding r by simp
next
  case (Inr r)
  have "validate_inpaint_request e v im ms p sd st gs
          = ([Mask_operation_metric (py ''validation'') (py ''success'')], Inr r)"
    unfolding validate_inpaint_request_def Inr by simp
  then show ?thesis
    using assms by simp
qed

lemma validate_inpaint_request_Inr:
  assumes "snd (validate_inpaint_request e v im ms p sd st gs) = Inr r"
  shows "fst (validate_inpaint_request e v im ms p sd st gs)
           = [Mask_operation_metric (py ''validation'') (py ''success'')]"
  using assms unfolding validate_inpaint_request_def
  by (auto split: sum.splits exn.splits)

lemma validate_and_process_image_Inl:
  "validate_and_process_image e u = Inl ex \<Longrightarrow> \<exists>d. ex = HTTPException 422 d"
  unfolding validate_and_process_image_def
  by (auto split: sum.splits if_splits)

lemma validate_and_process_image_Inr:
  "validate_and_process_image e u = Inr (b64, sz) \<Longrightarrow>
     \<exists>i. PIL_open e (file_bytes u) = Inr i \<and> sz = (width i, height i)"
  unfolding validate_and_process_image_def
  by (auto split: sum.splits if_splits)

lemma validate_and_process_mask_mismatch:
  assumes "PIL_open e (file_bytes u) = Inr m" and "(width m, height m) \<noteq> sz"
  shows "\<exists>d. validate_and_process_mask e u sz = Inl (HTTPException 422 d)"
  using assms unfolding validate_and_process_mask_def
  by simp

lemma validate_and_process_mask_mismatch_message:
  assumes "PIL_open e (file_bytes u) = Inr m" and "(width m, height m) \<noteq> sz"
    and "format m = py ''PNG''" and "mode m \<in> set [py ''RGBA'', py ''LA'', py ''L'']"
  shows "validate_and_process_mask e u sz
           = Inl (HTTPException 422
                    (py ''Mask dimensions '' @ str_of_nat (width m) @ py ''x''
                       @ str_of_nat (height m) @ py '' must match image dimensions ''
                       @ str_of_nat (fst sz) @ py ''x'' @ str_of_nat (snd sz)))"
  using assms unfolding validate_and_process_mask_def
  by simp

subsection \<open>The sample request\<close>

lemma sample_env_sel:
  "PIL_open (sample_env f out) = f"
  "encode_image (sample_env f out) = (\<lambda>i. Inr (py ''aW1hZ2U=''))"
  "str_float (sample_env f out) = (\<lambda>x. py ''?'')"
  by (simp_all add: sample_env_def)

lemma length_sample_data:
  "length sample_image_data = 809" "length sample_mask_data = 301"
  by (simp_all add: sample_image_data_def sample_mask_data_def)

lemma length_sample_bytes:
  "length sample_image_bytes = 842" "length sample_mask_bytes = 334"
  by (simp_all add: sample_image_bytes_def sample_mask_bytes_def PNG_SIGNATURE_def bytes_lit_def
      length_sample_data)

lemma sample_bytes_differ: "sample_mask_bytes \<noteq> sample_image_bytes"
proof
  assume "sample_mask_bytes = sample_image_bytes"
  then have "length sample_mask_bytes = length sample_image_bytes" by simp
  then show False by (simp add: length_sample_bytes)
qed

lemma sample_open_image:
  "sample_open (file_bytes sample_image)
     = Inr \<lparr>format = py ''PNG'', mode = py ''RGB'', width = 512, height = 512\<rparr>"
  by (simp add: sample_open_def sample_image_def)

lemma sample_open_mask:
  "sample_open (file_bytes sample_mask)
     = Inr \<lparr>format = py ''PNG'', mode = py ''RGBA'', width = 256, height = 256\<rparr>"
  by (simp add: sample_open_def sample_mask_def sample_bytes_differ)

lemma sample_image_file:
  "validate_image_file (file_bytes sample_image) (py ''test.png'') (py ''image/png'') = Inr []"
  by (simp add: validate_image_file_def validate_content_type_def validate_file_signature_def
      IMAGE_SIGNATURES_def PNG_SIGNATURE_def sample_image_def sample_image_bytes_def
      length_sample_data bytes_lit_def strip_def isspace_def
      ascii_lower_def sanitize_filename_def clean_filename_def limit_length_def basename_def
      rfind_def dangerous_char_def control_char_def endswith_def py_def Let_def)

lemma sample_mask_file:
  "validate_mask_file (file_bytes sample_mask) (py ''mask.png'') (py ''image/png'') = Inr []"
  by (simp add: validate_mask_file_def check_ihdr_def slice_def
      PNG_SIGNATURE_def sample_mask_def sample_mask_bytes_def length_sample_data bytes_lit_def
      ascii_lower_def sanitize_filename_def clean_filename_def limit_length_def basename_def
      rfind_def dangerous_char_def control_char_def endswith_def py_def Let_def)

lemma sample_uploaded_image:
  "validate_uploaded_image (sample_env sample_open out) sample_validator (Some sample_image) = Inr ()"
proof -
  have f: "filename sample_image = Some (py ''test.png'')" "file_size sample_image = Some 842"
    "content_type sample_image = Some (py ''image/png'')" "length (file_bytes sample_image) = 842"
    by (simp_all add: sample_image_def length_sample_bytes)
  have n: "py ''test.png'' \<noteq> []" by (simp add: py_def)
  have m: "max_image_size sample_validator = 10 * 1024 * 1024" by (simp add: sample_validator_def)
  have d: "validate_image_dimensions (sample_env sample_open out) sample_validator
             (file_bytes sample_image) = Inr ()"
    by (simp add: validate_image_dimensions_def sample_env_sel sample_open_image sample_validator_def)
  show ?thesis
    unfolding validate_uploaded_image_def
    by (simp add: f n sample_image_file d m)
qed

lemma sample_uploaded_mask:
  "validate_uploaded_mask (sample_env sample_open out) sample_validator (Some sample_mask) = Inr ()"
proof -
  have f: "filename sample_mask = Some (py ''mask.png'')" "file_size sample_mask = Some 334"
    "content_type sample_mask = Some (py ''image/png'')" "length (file_bytes sample_mask) = 334"
    by (simp_all add: sample_mask_def length_sample_bytes)
  have n: "py ''mask.png'' \<noteq> []" by (simp add: py_def)
  have m: "max_image_size sample_validator = 10 * 1024 * 1024" by (simp add: sample_validator_def)
  have d: "validate_mask_content (sample_env sample_open out) sample_validator
             (file_bytes sample_mask) = Inr ()"
    by (simp add: validate_mask_content_def sample_env_sel sample_open_mask sample_validator_def)
  show ?thesis
    unfolding validate_uploaded_mask_def
    by (simp add: f n sample_mask_file d m)
qed

lemma sample_prompt: "validate_prompt_text (py ''a cat'') = Inr (py ''a cat'')"
  by (simp add: validate_prompt_text_def validate_prompt_def strip_def isspace_def
      prompt_control_char_def Let_def suspicious_patterns_def re_search_ignorecase_def
      re_fold_def py_def)

lemma sample_validation:
  "validate_inpaint_request (sample_env sample_open out) sample_validator
       (Some sample_image) (Some sample_mask) (py ''a cat'') None None None
     = ([Mask_operation_metric (py ''validation'') (py ''success'')],
        Inr \<lparr>valid = True, v_prompt = py ''a cat'', v_seed = None,
             v_strength = 4 / 5, v_guidance_scale = 15 / 2\<rparr>)"
  by (simp add: validate_inpaint_request_def validation_stages_def sample_uploaded_image
      sample_uploaded_mask sample_prompt validate_parameters_def)

lemma sample_validation_empty_prompt:
  "validate_inpaint_request (sample_env sample_open out) sample_validator
       (Some sample_image) (Some sample_mask) [] None None None
     = ([Mask_operation_metric (py ''validation'') (py ''error'')],
        Inl (InputValidationError (py ''Prompt cannot be empty'') (Some (py ''prompt''))))"
  by (simp add: validate_inpaint_request_def validation_stages_def sample_uploaded_image
      sample_uploaded_mask validate_prompt_text_def validate_prompt_def)

lemma sample_process_image:
  "validate_and_process_image (sample_env sample_open out) sample_image
     = Inr (py ''aW1hZ2U='', (512, 512))"
  by (simp add: validate_and_process_image_def sample_env_sel sample_open_image)

lemma str_of_nat_256_512: "str_of_nat 256 = py ''256''" "str_of_nat 512 = py ''512''"
  by (simp_all add: str_of_nat.simps py_def)

subsection \<open>Mask dimensions and validation failure\<close>

lemma sample_process_mask:
  "validate_and_process_mask (sample_env sample_open out) sample_mask (512, 512)
     = Inl (HTTPException 422 (py ''Mask dimensions 256x256 must match image dimensions 512x512''))"
  by (simp add: validate_and_process_mask_def sample_env_sel sample_open_mask str_of_nat_256_512)
    (simp add: py_def)

lemma sample_api:
  "api_inpaint_image (sample_env sample_open out) sample_validator cl sample_image sample_mask
       (py ''a cat'') None None None
     = ([Mask_operation_metric (py ''validation'') (py ''success''),
         Image_processing_metric (py ''validation''), Call_validate_and_process_image,
         Image_processing_metric (py ''image_processing''), Call_validate_and_process_mask],
        Inl (HTTPException 422 (py ''Mask dimensions 256x256 must match image dimensions 512x512'')))"
  by (simp add: api_inpaint_image_def sample_validation sample_process_image sample_process_mask)

text \<open>
  Claim C6, as stated, fails. On a request with a 512 by 512 image and a 256 by 256 mask
  the validation pipeline returns a valid result: its mask stage checks the mask against
  the bounds only. The request is rejected afterwards by \<open>validate_and_process_mask\<close>
  with a plain \<open>HTTPException\<close> of status 422, which has no field.
\<close>

theorem mask_dimension_mismatch_counterexample:
  "sample_open (file_bytes sample_image)
     = Inr \<lparr>format = py ''PNG'', mode = py ''RGB'', width = 512, height = 512\<rparr>
   \<and> sample_open (file_bytes sample_mask)
     = Inr \<lparr>format = py ''PNG'', mode = py ''RGBA'', width = 256, height = 256\<rparr>
   \<and> snd (validate_inpaint_request (sample_env sample_open TimeoutException) sample_validator
          (Some sample_image) (Some sample_mask) (py ''a cat'') None None None)
     = Inr \<lparr>valid = True, v_prompt = py ''a cat'', v_seed = None,
            v_strength = 4 / 5, v_guidance_scale = 15 / 2\<rparr>
   \<and> snd (api_inpaint_image (sample_env sample_open TimeoutException) sample_validator
          sample_client sample_image sample_mask (py ''a cat'') None None None)
     = Inl (HTTPException 422 (py ''Mask dimensions 256x256 must match image dimensions 512x512''))
   \<and> field (HTTPException 422 (py ''Mask dimensions 256x256 must match image dimensions 512x512''))
     \<noteq> Some (py ''mask'')"
  by (simp add: sample_open_image sample_open_mask sample_validation sample_api)

text \<open>
  Claim C6, amended. Whenever the image and the mask of a request both decode and their
  decoded dimensions differ, the handler answers with an \<open>HTTPException\<close> of status 422
  and the inpaint client is not called. When the validation pipeline and the processing
  of the image succeed and the mask is a PNG of mode RGBA, LA or L, the error is the one
  of \<open>validate_and_process_mask\<close>, with the message that names both dimensions.
\<close>

theorem mask_dimension_mismatch_rejected:
  assumes "PIL_open e (file_bytes im) = Inr i" and "PIL_open e (file_bytes ms) = Inr m"
    and "(width m, height m) \<noteq> (width i, height i)"
  shows "(\<exists>d. snd (api_inpaint_image e v cl im ms p sd st gs) = Inl (HTTPException 422 d))
     \<and> Call_inpaint_image \<notin> set (fst (api_inpaint_image e v cl im ms p sd st gs))
     \<and> (\<not> isl (snd (validate_inpaint_request e v (Some im) (Some ms) p sd st gs))
         \<and> \<not> isl (validate_and_process_image e im)
         \<and> format m = py ''PNG'' \<and> mode m \<in> set [py ''RGBA'', py ''LA'', py ''L'']
        \<longrightarrow> snd (api_inpaint_image e v cl im ms p sd st gs)
            = Inl (HTTPException 422
                     (py ''Mask dimensions '' @ str_of_nat (width m) @ py ''x''
                        @ str_of_nat (height m) @ py '' must match image dimensions ''
                        @ str_of_nat (width i) @ py ''x'' @ str_of_nat (height i))))"
proof (cases "snd (validate_inpaint_request e v (Some im) (Some ms) p sd st gs)")
  case (Inl ex)
  obtain ev where r: "validate_inpaint_request e v (Some im) (Some ms) p sd st gs = (ev, Inl ex)"
    using Inl by (cases "validate_inpaint_request e v (Some im) (Some ms) p sd st gs") simp
  obtain d f where ex: "ex = InputValidationError d f"
    and ev: "ev = [Mask_operation_metric (py ''validation'') (py ''error'')]"
    using validate_inpaint_request_Inl [OF Inl] r by auto
  have "api_inpaint_image e v cl im ms p sd st gs = (ev, Inl (HTTPException 422 d))"
    unfolding api_inpaint_image_def r ex by simp
  then show ?thesis
    using Inl ev by simp
next
  case (Inr res)
  obtain ev where r: "validate_inpaint_request e v (Some im) (Some ms) p sd st gs = (ev, Inr res)"
    using Inr by (cases "validate_inpaint_request e v (Some im) (Some ms) p sd st gs") simp
  have ev: "ev = [Mask_operation_metric (py ''validation'') (py ''success'')]"
    using validate_inpaint_request_Inr [OF Inr] r by simp
  show ?thesis
  proof (cases "validate_and_process_image e im")
    case (Inl ex)
    then obtain d where ex: "ex = HTTPException 422 d"
      using validate_and_process_image_Inl by blast
    have "api_inpaint_image e v cl im ms p sd st gs
            = (ev @ [Image_processing_metric (py ''validation''), Call_validate_and_process_image],
               Inl (HTTPException 422 d))"
      unfolding api_inpaint_image_def r Inl ex by (simp add: Let_def)
    then show ?thesis
      using Inl ev by simp
  next
    case (Inr a)
    obtain b64 sz where a: "a = (b64, sz)" by (cases a)
    have sz: "sz = (width i, height i)"
      using validate_and_process_image_Inr [of e im b64 sz] Inr a assms(1) by auto
    have ne: "(width m, height m) \<noteq> sz" using assms(3) sz by simp
    obtain d where d: "validate_and_process_mask e ms sz = Inl (HTTPException 422 d)"
      using validate_and_process_mask_mismatch [OF assms(2) ne] by blast
    have api: "api_inpaint_image e v cl im ms p sd st gs
            = (ev @ [Image_processing_metric (py ''validation''), Call_validate_and_process_image]
                  @ [Image_processing_metric (py ''image_processing''),
                     Call_validate_and_process_mask],
               Inl (HTTPException 422 d))"
      unfolding api_inpaint_image_def r Inr a by (simp add: Let_def d)
    have msg: "d = py ''Mask dimensions '' @ str_of_nat (width m) @ py ''x''
                        @ str_of_nat (height m) @ py '' must match image dimensions ''
                        @ str_of_nat (width i) @ py ''x'' @ str_of_nat (height i)"
      if "format m = py ''PNG''" and "mode m \<in> set [py ''RGBA'', py ''LA'', py ''L'']"
      using validate_and_process_mask_mismatch_message [OF assms(2) ne that] d sz by simp
    show ?thesis
      using api ev msg by simp
  qed
qed

theorem mask_dimension_mismatch_rejected_witness:
  "snd (api_inpaint_image (sample_env sample_open (Responded (sample_response 200))) sample_validator
          sample_client sample_image sample_mask (py ''a cat'') None None None)
     = Inl (HTTPException 422 (py ''Mask dimensions 256x256 must match image dimensions 512x512''))
   \<and> Call_inpaint_image
       \<notin> set (fst (api_inpaint_image (sample_env sample_open (Responded (sample_response 200)))
                   sample_validator sample_client sample_image sample_mask (py ''a cat'')
                   None None None))"
proof -
  let ?e = "sample_env sample_open (Responded (sample_response 200))"
  have 1: "PIL_open ?e (file_bytes sample_image)
             = Inr \<lparr>format = py ''PNG'', mode = py ''RGB'', width = 512, height = 512\<rparr>"
    by (simp add: sample_env_sel sample_open_image)
  have 2: "PIL_open ?e (file_bytes sample_mask)
             = Inr \<lparr>format = py ''PNG'', mode = py ''RGBA'', width = 256, height = 256\<rparr>"
    by (simp add: sample_env_sel sample_open_mask)
  have 3: "(width \<lparr>format = py ''PNG'', mode = py ''RGBA'', width = 256, height = 256\<rparr>,
            height \<lparr>format = py ''PNG'', mode = py ''RGBA'', width = 256, height = 256\<rparr>)
           \<noteq> (width \<lparr>format = py ''PNG'', mode = py ''RGB'', width = 512, height = 512\<rparr>,
               height \<lparr>format = py ''PNG'', mode = py ''RGB'', width = 512, height = 512\<rparr>)"
    by simp
  have 4: "\<not> isl (snd (validate_inpaint_request ?e sample_validator (Some sample_image)
                         (Some sample_mask) (py ''a cat'') None None None))"
    by (simp add: sample_validation)
  have 5: "\<not> isl (validate_and_process_image ?e sample_image)"
    by (simp add: sample_process_image)
  note t = mask_dimension_mismatch_rejected [OF 1 2 3, of sample_validator sample_client
      "py ''a cat''" None None None]
  have a: "snd (api_inpaint_image ?e sample_validator sample_client sample_image sample_mask
                 (py ''a cat'') None None None)
             = Inl (HTTPException 422
                     (py ''Mask dimensions '' @ str_of_nat 256 @ py ''x''
                        @ str_of_nat 256 @ py '' must match image dimensions ''
                        @ str_of_nat 512 @ py ''x'' @ str_of_nat 512))"
    using t 4 5 by simp
  have b: "Call_inpaint_image
       \<notin> set (fst (api_inpaint_image ?e sample_validator sample_client sample_image sample_mask
                   (py ''a cat'') None None None))"
    using t by blast
  have c: "py ''Mask dimensions '' @ str_of_nat 256 @ py ''x''
                        @ str_of_nat 256 @ py '' must match image dimensions ''
                        @ str_of_nat 512 @ py ''x'' @ str_of_nat 512
           = py ''Mask dimensions 256x256 must match image dimensions 512x512''"
    by (simp add: str_of_nat_256_512) (simp add: py_def)
  show ?thesis using a b unfolding c by blast
qed

text \<open>
  Claim C10. When the validation pipeline raises an \<open>InputValidationError\<close>, the handler
  answers with \<open>HTTPException(422, detail)\<close> of the same detail, and the request leaves
  nothing behind but the metric of the failed validation: the image and the mask are not
  processed, the inpaint client is not called and no response image is made.
\<close>

theorem validation_error_is_atomic:
  assumes "snd (validate_inpaint_request e v (Some im) (Some ms) p sd st gs)
             = Inl (InputValidationError d f)"
  shows "snd (api_inpaint_image e v cl im ms p sd st gs) = Inl (HTTPException 422 d)
     \<and> fst (api_inpaint_image e v cl im ms p sd st gs)
         = [Mask_operation_metric (py ''validation'') (py ''error'')]
     \<and> Call_validate_and_process_image \<notin> set (fst (api_inpaint_image e v cl im ms p sd st gs))
     \<and> Call_validate_and_process_mask \<notin> set (fst (api_inpaint_image e v cl im ms p sd st gs))
     \<and> Call_inpaint_image \<notin> set (fst (api_inpaint_image e v cl im ms p sd st gs))
     \<and> Call_create_response_image \<notin> set (fst (api_inpaint_image e v cl im ms p sd st gs))"
proof -
  obtain ev where r: "validate_inpaint_request e v (Some im) (Some ms) p sd st gs
                        = (ev, Inl (InputValidationError d f))"
    using assms by (cases "validate_inpaint_request e v (Some im) (Some ms) p sd st gs") simp
  have ev: "ev = [Mask_operation_metric (py ''validation'') (py ''error'')]"
    using validate_inpaint_request_Inl [OF assms] r by simp
  have "api_inpaint_image e v cl im ms p sd st gs = (ev, Inl (HTTPException 422 d))"
    unfolding api_inpaint_image_def r by simp
  then show ?thesis
    using ev by simp
qed

theorem validation_error_is_atomic_witness:
  "api_inpaint_image (sample_env sample_open (Responded (sample_response 200))) sample_validator
       sample_client sample_image sample_mask [] None None None
     = ([Mask_operation_metric (py ''validation'') (py ''error'')],
        Inl (HTTPException 422 (py ''Prompt cannot be empty'')))"
proof -
  let ?e = "sample_env sample_open (Responded (sample_response 200))"
  have "snd (validate_inpaint_request ?e sample_validator (Some sample_image) (Some sample_mask)
               [] None None None)
          = Inl (InputValidationError (py ''Prompt cannot be empty'') (Some (py ''prompt'')))"
    by (simp add: sample_validation_empty_prompt)
  from validation_error_is_atomic [OF this, of sample_client]
  show ?thesis
    by (simp add: prod_eq_iff)
qed

end
